theory Spec2Isabelle
  imports Complex_Main "HOL-Library.AList"
begin

section \<open>Python values, documents and exceptions\<close>

text \<open>
  The service of \<^verbatim>\<open>main.py\<close> exchanges JSON-like Python values: dictionaries
  with string keys, lists, strings, integers, floats, booleans and \<^verbatim>\<open>None\<close>, plus
  the identity objects the document store puts under the key \<^verbatim>\<open>_id\<close>.
  A dictionary is an association list in insertion order. Strings are byte strings
  (UTF-8). The type \<open>'f\<close> stands for Python's \<^verbatim>\<open>float\<close>; its arithmetic is
  not fixed here but passed in as a \<open>runtime\<close> (below), so every result holds for any
  floating-point semantics.
\<close>

datatype 'f pyval =
    PNone
  | PBool bool
  | PInt int
  | PFloat 'f
  | PStr string
  | PObjectId nat
  | PList "'f pyval list"
  | PDict "(string \<times> 'f pyval) list"

type_synonym 'f document = "(string \<times> 'f pyval) list"

datatype exn =
    Exception string
  | KeyError string
  | OverflowError string
  | AttributeError string

text \<open>\<^verbatim>\<open>str(e)\<close>: the message of an exception; for a \<^verbatim>\<open>KeyError\<close> the
  repr of the missing key, in single quotes.\<close>

fun str_exn :: "exn \<Rightarrow> string" where
  "str_exn (Exception m) = m"
| "str_exn (KeyError k) = [CHR 0x27] @ k @ [CHR 0x27]"
| "str_exn (OverflowError m) = m"
| "str_exn (AttributeError m) = m"

text \<open>Dictionary operations: \<^verbatim>\<open>d[k]\<close>, \<^verbatim>\<open>d[k] = v\<close>, \<^verbatim>\<open>d.pop(k)\<close> and
  \<^verbatim>\<open>d.pop(k, None)\<close>.\<close>

definition dict_get :: "'f document \<Rightarrow> string \<Rightarrow> exn + 'f pyval" where
  "dict_get d k = (case map_of d k of None \<Rightarrow> Inl (KeyError k) | Some v \<Rightarrow> Inr v)"

definition dict_set :: "'f document \<Rightarrow> string \<Rightarrow> 'f pyval \<Rightarrow> 'f document" where
  "dict_set d k v = AList.update k v d"

definition dict_pop :: "'f document \<Rightarrow> string \<Rightarrow> exn + ('f pyval \<times> 'f document)" where
  "dict_pop d k =
     (case map_of d k of
        None \<Rightarrow> Inl (KeyError k)
      | Some v \<Rightarrow> Inr (v, AList.delete k d))"

definition dict_pop_default :: "'f document \<Rightarrow> string \<Rightarrow> 'f document" where
  "dict_pop_default d k = AList.delete k d"

text \<open>Running a list of fallible computations in order; the first exception wins.\<close>

fun sequence :: "(exn + 'a) list \<Rightarrow> exn + 'a list" where
  "sequence [] = Inr []"
| "sequence (x # xs) =
     (case x of
        Inl e \<Rightarrow> Inl e
      | Inr v \<Rightarrow> (case sequence xs of Inl e \<Rightarrow> Inl e | Inr vs \<Rightarrow> Inr (v # vs)))"

section \<open>The Python runtime: floats and \<^verbatim>\<open>str\<close>\<close>

text \<open>
  The primitives of the interpreter that the service uses and that are not modelled
  in detail: float literals (\<open>float_lit 999 2\<close> is the literal \<^verbatim>\<open>9.99\<close>: the
  digits and the number of decimals), the conversion of an integer within range,
  float multiplication, the builtin \<^verbatim>\<open>sum\<close> on a non-empty sequence of floats,
  \<^verbatim>\<open>round(x, n)\<close> on a float, and \<^verbatim>\<open>str\<close> on values other than strings and
  store identities.
\<close>

record 'f runtime =
  float_lit :: "int \<Rightarrow> nat \<Rightarrow> 'f"
  float_of_int :: "int \<Rightarrow> 'f"
  float_mul :: "'f \<Rightarrow> 'f \<Rightarrow> 'f"
  float_sum :: "'f list \<Rightarrow> 'f"
  float_round :: "'f \<Rightarrow> int \<Rightarrow> 'f"
  str_other :: "'f pyval \<Rightarrow> string"

text \<open>
  \<^verbatim>\<open>int * float\<close> converts the integer to a float first and raises
  \<^verbatim>\<open>OverflowError\<close> when it does not fit: an integer that rounds (to nearest, ties
  to even) to \<open>2 ^ 1024\<close> or beyond, that is from \<open>2 ^ 1024 - 2 ^ 970\<close> on.
  The product of two floats never raises.
\<close>

definition float_limit :: int where
  "float_limit = 2 ^ 1024 - 2 ^ 970"

definition int_times_float :: "'f runtime \<Rightarrow> int \<Rightarrow> 'f \<Rightarrow> exn + 'f" where
  "int_times_float rt n x =
     (if float_limit \<le> \<bar>n\<bar> then Inl (OverflowError ''int too large to convert to float'')
      else Inr (float_mul rt (float_of_int rt n) x))"

text \<open>\<^verbatim>\<open>sum\<close> starts from the integer \<^verbatim>\<open>0\<close>: on an empty sequence it returns
  that integer, otherwise a float. \<^verbatim>\<open>round(x, 2)\<close> of an integer is the integer.\<close>

definition py_sum :: "'f runtime \<Rightarrow> 'f list \<Rightarrow> 'f pyval" where
  "py_sum rt xs = (if xs = [] then PInt 0 else PFloat (float_sum rt xs))"

fun py_round2 :: "'f runtime \<Rightarrow> 'f pyval \<Rightarrow> 'f pyval" where
  "py_round2 rt (PFloat x) = PFloat (float_round rt x 2)"
| "py_round2 rt v = v"

text \<open>Modelled from the spec: the identities that the store assigns are not among
  the sources; they are numbered here, and the string of an identity is its decimal
  digits.\<close>

definition digit_char :: "nat \<Rightarrow> char" where
  "digit_char d = ''0123456789'' ! d"

function digits10 :: "nat \<Rightarrow> string" where
  "digits10 n =
     (if n < 10 then [digit_char n]
      else digits10 (n div 10) @ [digit_char (n mod 10)])"
  by pat_completeness auto
termination
  by (relation "measure id") auto

declare digits10.simps [simp del]

definition oid_str :: "nat \<Rightarrow> string" where
  "oid_str n = digits10 n"

definition py_str :: "'f runtime \<Rightarrow> 'f pyval \<Rightarrow> string" where
  "py_str rt v =
     (case v of
        PStr s \<Rightarrow> s
      | PObjectId n \<Rightarrow> oid_str n
      | _ \<Rightarrow> str_other rt v)"

section \<open>The document store\<close>

text \<open>
  Modelled from the spec: the module \<^verbatim>\<open>database\<close> (the handle \<^verbatim>\<open>db\<close>, the
  helpers \<^verbatim>\<open>create_document\<close> and \<^verbatim>\<open>get_documents\<close>, and the handle's methods
  \<^verbatim>\<open>count_documents\<close> and \<^verbatim>\<open>list_collection_names\<close>) is not among the sources.
  The spec describes it as a document store accessor with
  \<^verbatim>\<open>count(collection, filter)\<close>, \<^verbatim>\<open>insert(collection, document) -> id\<close>,
  \<^verbatim>\<open>query(collection, filter?) -> sequence of document\<close> and a presence check, any
  of which may raise.

  The store holds named collections of documents and a counter for the next identity.
  An insert stores the document under a fresh identity (key \<^verbatim>\<open>_id\<close>) and returns
  the identity as a string; a query returns the documents that agree with the filter on
  every key of the filter, in insertion order. Failures are scripted: \<open>faults\<close> lists,
  for the store accesses to come, whether each one raises (and what); an access
  that raises has no other effect, and once the script is used up every access
  succeeds. So every pattern of store failures is a store state.
\<close>

record 'f store =
  db_name :: "string option"
  collections :: "(string \<times> 'f document list) list"
  next_oid :: nat
  faults :: "exn option list"

text \<open>Modelled from the spec: an access takes the next entry of the failure script;
  the documents of a collection (none when the collection was never written); and
  the filter of a count or query, equality on every key of the filter.\<close>

definition next_fault :: "'f store \<Rightarrow> exn option \<times> 'f store" where
  "next_fault st =
     (case faults st of
        [] \<Rightarrow> (None, st)
      | f # fs \<Rightarrow> (f, st\<lparr>faults := fs\<rparr>))"

definition coll :: "'f store \<Rightarrow> string \<Rightarrow> 'f document list" where
  "coll st c = (case map_of (collections st) c of None \<Rightarrow> [] | Some ds \<Rightarrow> ds)"

definition matches :: "'f document \<Rightarrow> 'f document \<Rightarrow> bool" where
  "matches flt d = list_all (\<lambda>kv. map_of d (fst kv) = Some (snd kv)) flt"

text \<open>Modelled from the spec: the truth value of a configured handle
  (\<^verbatim>\<open>if db\<close>) is true, as for any Python object, unless the test itself raises.\<close>

definition db_truth :: "'f store \<Rightarrow> (exn + bool) \<times> 'f store" where
  "db_truth st =
     (case next_fault st of
        (Some e, st') \<Rightarrow> (Inl e, st')
      | (None, st') \<Rightarrow> (Inr True, st'))"

text \<open>Modelled from the spec: \<^verbatim>\<open>count(collection, filter)\<close>.\<close>

definition count_documents ::
  "string \<Rightarrow> 'f document \<Rightarrow> 'f store \<Rightarrow> (exn + nat) \<times> 'f store" where
  "count_documents c flt st =
     (case next_fault st of
        (Some e, st') \<Rightarrow> (Inl e, st')
      | (None, st') \<Rightarrow> (Inr (length (filter (matches flt) (coll st' c))), st'))"

text \<open>Modelled from the spec: \<^verbatim>\<open>insert(collection, document) -> id\<close>. The
  store appends the document, under the next identity, to the collection.\<close>

definition insert_doc :: "string \<Rightarrow> 'f document \<Rightarrow> 'f store \<Rightarrow> 'f store" where
  "insert_doc c d st =
     st\<lparr>collections :=
          AList.update c (coll st c @ [dict_set d ''_id'' (PObjectId (next_oid st))])
            (collections st),
        next_oid := Suc (next_oid st)\<rparr>"

definition create_document ::
  "string \<Rightarrow> 'f document \<Rightarrow> 'f store \<Rightarrow> (exn + 'f pyval) \<times> 'f store" where
  "create_document c d st =
     (case next_fault st of
        (Some e, st') \<Rightarrow> (Inl e, st')
      | (None, st') \<Rightarrow> (Inr (PStr (oid_str (next_oid st'))), insert_doc c d st'))"

text \<open>Modelled from the spec: \<^verbatim>\<open>query(collection, filter?) -> sequence of document\<close>.\<close>

definition get_documents ::
  "string \<Rightarrow> 'f document \<Rightarrow> 'f store \<Rightarrow> (exn + 'f document list) \<times> 'f store" where
  "get_documents c flt st =
     (case next_fault st of
        (Some e, st') \<Rightarrow> (Inl e, st')
      | (None, st') \<Rightarrow> (Inr (filter (matches flt) (coll st' c)), st'))"

text \<open>Modelled from the spec: the probes of the diagnostics operation on the handle,
  \<^verbatim>\<open>hasattr(db, "name")\<close>, \<^verbatim>\<open>db.name\<close> and \<^verbatim>\<open>db.list_collection_names()\<close>.\<close>

definition hasattr_name :: "'f store \<Rightarrow> (exn + bool) \<times> 'f store" where
  "hasattr_name st =
     (case next_fault st of
        (Some e, st') \<Rightarrow> (Inl e, st')
      | (None, st') \<Rightarrow> (Inr (db_name st' \<noteq> None), st'))"

definition getattr_name :: "'f store \<Rightarrow> (exn + 'f pyval) \<times> 'f store" where
  "getattr_name st =
     (case next_fault st of
        (Some e, st') \<Rightarrow> (Inl e, st')
      | (None, st') \<Rightarrow>
          (case db_name st' of
             None \<Rightarrow> (Inl (AttributeError ''name''), st')
           | Some n \<Rightarrow> (Inr (PStr n), st')))"

definition list_collection_names :: "'f store \<Rightarrow> (exn + 'f pyval list) \<times> 'f store" where
  "list_collection_names st =
     (case next_fault st of
        (Some e, st') \<Rightarrow> (Inl e, st')
      | (None, st') \<Rightarrow> (Inr (map (\<lambda>p. PStr (fst p)) (collections st')), st'))"

section \<open>The service\<close>

text \<open>A handler returns a value (status 200) or raises \<^verbatim>\<open>HTTPException\<close> with a
  status code and a detail. The module global \<^verbatim>\<open>db\<close> is \<open>None\<close> when no store is
  configured; a handler takes it and returns it with the store's new state.\<close>

datatype 'f response =
    Return "'f pyval"
  | HTTPException nat string

subsection \<open>Demo fixtures\<close>

definition DEMO_RESTAURANT :: "'f runtime \<Rightarrow> 'f document" where
  "DEMO_RESTAURANT rt =
     [(''id'', PStr ''demo-1''),
      (''name'', PStr ''SnackSprint Diner''),
      (''description'', PStr ''Burgers, bowls and bites delivered fast''),
      (''image'', PStr ''https://images.unsplash.com/photo-1550547660-d9450f859349?w=1200''),
      (''cuisine'', PStr ''American''),
      (''rating'', PFloat (float_lit rt 47 1))]"

text \<open>\<^verbatim>\<open>DEMO_RESTAURANT["id"]\<close>, read once when the module is loaded; the key is
  there.\<close>

definition demo_restaurant_id :: "'f runtime \<Rightarrow> 'f pyval" where
  "demo_restaurant_id rt =
     (case map_of (DEMO_RESTAURANT rt) ''id'' of Some v \<Rightarrow> v | None \<Rightarrow> PNone)"

definition DEMO_MENU :: "'f runtime \<Rightarrow> 'f document list" where
  "DEMO_MENU rt =
     [[(''id'', PStr ''m1''),
       (''restaurant_id'', demo_restaurant_id rt),
       (''name'', PStr ''Classic Burger''),
       (''description'', PStr ''Juicy beef patty, cheddar, pickles''),
       (''price'', PFloat (float_lit rt 999 2)),
       (''image'', PStr ''https://images.unsplash.com/photo-1550547660-2f9b63f1f7b0?w=1200''),
       (''is_veg'', PBool False),
       (''spice_level'', PStr ''Mild'')],
      [(''id'', PStr ''m2''),
       (''restaurant_id'', demo_restaurant_id rt),
       (''name'', PStr ''Veggie Bowl''),
       (''description'', PStr ''Roasted veggies, quinoa, tahini''),
       (''price'', PFloat (float_lit rt 849 2)),
       (''image'', PStr ''https://images.unsplash.com/photo-1512621776951-a57141f2eefd?w=1200''),
       (''is_veg'', PBool True),
       (''spice_level'', PStr ''Medium'')],
      [(''id'', PStr ''m3''),
       (''restaurant_id'', demo_restaurant_id rt),
       (''name'', PStr ''Spicy Chicken Wrap''),
       (''description'', PStr ''Crispy chicken, chipotle mayo''),
       (''price'', PFloat (float_lit rt 1049 2)),
       (''image'', PStr ''https://images.unsplash.com/photo-1604908177076-9f2bf5f7955f?w=1200''),
       (''is_veg'', PBool False),
       (''spice_level'', PStr ''Hot'')]]"

subsection \<open>\<^verbatim>\<open>seed_demo_data\<close>\<close>

text \<open>The document of the demo restaurant: five subscripts of the fixture.\<close>

definition restaurant_keys :: "string list" where
  "restaurant_keys = [''name'', ''description'', ''image'', ''cuisine'', ''rating'']"

definition restaurant_doc :: "'f runtime \<Rightarrow> exn + 'f document" where
  "restaurant_doc rt =
     (case sequence (map (dict_get (DEMO_RESTAURANT rt)) restaurant_keys) of
        Inl e \<Rightarrow> Inl e
      | Inr vs \<Rightarrow> Inr (zip restaurant_keys vs))"

text \<open>The loop over \<^verbatim>\<open>DEMO_MENU\<close>: copy the item, drop its \<^verbatim>\<open>id\<close>, point it at
  the restaurant, insert it. An exception leaves the loop.\<close>

definition menu_doc :: "'f pyval \<Rightarrow> 'f document \<Rightarrow> 'f document" where
  "menu_doc rest_id itm =
     dict_set (dict_pop_default itm ''id'') ''restaurant_id'' rest_id"

fun seed_menu ::
  "'f pyval \<Rightarrow> 'f document list \<Rightarrow> 'f store \<Rightarrow> (exn + unit) \<times> 'f store" where
  "seed_menu rest_id [] st = (Inr (), st)"
| "seed_menu rest_id (itm # itms) st =
     (case create_document ''menuitem'' (menu_doc rest_id itm) st of
        (Inl e, st') \<Rightarrow> (Inl e, st')
      | (Inr _, st') \<Rightarrow> seed_menu rest_id itms st')"

text \<open>The body of the \<^verbatim>\<open>try\<close>.\<close>

definition seed_insert :: "'f runtime \<Rightarrow> 'f store \<Rightarrow> (exn + unit) \<times> 'f store" where
  "seed_insert rt st =
     (case restaurant_doc rt of
        Inl e \<Rightarrow> (Inl e, st)
      | Inr rdoc \<Rightarrow>
          (case create_document ''restaurant'' rdoc st of
             (Inl e, st') \<Rightarrow> (Inl e, st')
           | (Inr rid, st') \<Rightarrow> seed_menu rid (DEMO_MENU rt) st'))"

definition seed_try :: "'f runtime \<Rightarrow> 'f store \<Rightarrow> (exn + 'f pyval) \<times> 'f store" where
  "seed_try rt st =
     (case db_truth st of
        (Inl e, st1) \<Rightarrow> (Inl e, st1)
      | (Inr b, st1) \<Rightarrow>
          (case (if b then count_documents ''restaurant'' [] st1 else (Inr 0, st1)) of
             (Inl e, st2) \<Rightarrow> (Inl e, st2)
           | (Inr restaurants, st2) \<Rightarrow>
               if restaurants = 0 then
                 (case seed_insert rt st2 of
                    (Inl e, st3) \<Rightarrow> (Inl e, st3)
                  | (Inr _, st3) \<Rightarrow>
                      (Inr (PDict [(''ok'', PBool True), (''mode'', PStr ''db'')]), st3))
               else (Inr (PDict [(''ok'', PBool True), (''mode'', PStr ''db'')]), st2)))"

definition seed_demo_data ::
  "'f runtime \<Rightarrow> 'f store option \<Rightarrow> 'f response \<times> 'f store option" where
  "seed_demo_data rt db =
     (case db of
        None \<Rightarrow> (Return (PDict [(''ok'', PBool True), (''mode'', PStr ''demo'')]), None)
      | Some st \<Rightarrow>
          (case seed_try rt st of
             (Inl e, st') \<Rightarrow> (HTTPException 500 (str_exn e), Some st')
           | (Inr v, st') \<Rightarrow> (Return v, Some st')))"

subsection \<open>\<^verbatim>\<open>list_restaurants\<close> and \<^verbatim>\<open>list_menu\<close>\<close>

text \<open>\<^verbatim>\<open>d["id"] = str(d.pop("_id"))\<close>, for each document in turn.\<close>

definition remap_id :: "'f runtime \<Rightarrow> 'f document \<Rightarrow> exn + 'f document" where
  "remap_id rt d =
     (case dict_pop d ''_id'' of
        Inl e \<Rightarrow> Inl e
      | Inr (v, d') \<Rightarrow> Inr (dict_set d' ''id'' (PStr (py_str rt v))))"

definition list_restaurants ::
  "'f runtime \<Rightarrow> 'f store option \<Rightarrow> 'f response \<times> 'f store option" where
  "list_restaurants rt db =
     (case db of
        None \<Rightarrow> (Return (PList [PDict (DEMO_RESTAURANT rt)]), None)
      | Some st \<Rightarrow>
          (case get_documents ''restaurant'' [] st of
             (Inl e, st') \<Rightarrow> (Return (PList [PDict (DEMO_RESTAURANT rt)]), Some st')
           | (Inr data, st') \<Rightarrow>
               (case sequence (map (remap_id rt) data) of
                  Inl e \<Rightarrow> (Return (PList [PDict (DEMO_RESTAURANT rt)]), Some st')
                | Inr data' \<Rightarrow> (Return (PList (map PDict data')), Some st'))))"

text \<open>The demo menu of a restaurant; every fixture has the key
  \<^verbatim>\<open>restaurant_id\<close>, so the subscript in the comprehension cannot raise.\<close>

definition demo_menu_for :: "'f runtime \<Rightarrow> string \<Rightarrow> 'f document list" where
  "demo_menu_for rt restaurant_id =
     filter (\<lambda>m. map_of m ''restaurant_id'' = Some (PStr restaurant_id)) (DEMO_MENU rt)"

definition list_menu ::
  "'f runtime \<Rightarrow> string \<Rightarrow> 'f store option \<Rightarrow> 'f response \<times> 'f store option" where
  "list_menu rt restaurant_id db =
     (case db of
        None \<Rightarrow> (Return (PList (map PDict (demo_menu_for rt restaurant_id))), None)
      | Some st \<Rightarrow>
          (case get_documents ''menuitem'' [(''restaurant_id'', PStr restaurant_id)] st of
             (Inl e, st') \<Rightarrow>
               (Return (PList (map PDict (demo_menu_for rt restaurant_id))), Some st')
           | (Inr items, st') \<Rightarrow>
               (case sequence (map (remap_id rt) items) of
                  Inl e \<Rightarrow>
                    (Return (PList (map PDict (demo_menu_for rt restaurant_id))), Some st')
                | Inr items' \<Rightarrow> (Return (PList (map PDict items')), Some st'))))"

subsection \<open>\<^verbatim>\<open>create_order\<close>\<close>

record 'f OrderItemPayload =
  item_id :: string
  name :: string
  price :: 'f
  quantity :: int

record 'f OrderPayload =
  restaurant_id :: string
  customer_name :: string
  phone :: string
  address :: string
  "notes" :: "string option"
  items :: "'f OrderItemPayload list"

text \<open>\<^verbatim>\<open>max(1, i.quantity) * float(i.price)\<close>; the price is a float already.\<close>

definition line_total :: "'f runtime \<Rightarrow> 'f OrderItemPayload \<Rightarrow> exn + 'f" where
  "line_total rt i = int_times_float rt (max 1 (quantity i)) (price i)"

text \<open>\<^verbatim>\<open>round(sum(... for i in payload.items), 2)\<close>.\<close>

definition order_total :: "'f runtime \<Rightarrow> 'f OrderItemPayload list \<Rightarrow> exn + 'f pyval" where
  "order_total rt its =
     (case sequence (map (line_total rt) its) of
        Inl e \<Rightarrow> Inl e
      | Inr xs \<Rightarrow> Inr (py_round2 rt (py_sum rt xs)))"

text \<open>\<^verbatim>\<open>i.model_dump()\<close>.\<close>

definition model_dump :: "'f OrderItemPayload \<Rightarrow> 'f pyval" where
  "model_dump i =
     PDict [(''item_id'', PStr (item_id i)),
            (''name'', PStr (name i)),
            (''price'', PFloat (price i)),
            (''quantity'', PInt (quantity i))]"

definition order_doc :: "'f OrderPayload \<Rightarrow> 'f pyval \<Rightarrow> 'f document" where
  "order_doc payload tot =
     [(''restaurant_id'', PStr (restaurant_id payload)),
      (''customer_name'', PStr (customer_name payload)),
      (''phone'', PStr (phone payload)),
      (''address'', PStr (address payload)),
      (''notes'', (case notes payload of None \<Rightarrow> PNone | Some n \<Rightarrow> PStr n)),
      (''items'', PList (map model_dump (items payload))),
      (''total'', tot),
      (''status'', PStr ''pending'')]"

definition create_order ::
  "'f runtime \<Rightarrow> 'f OrderPayload \<Rightarrow> 'f store option \<Rightarrow> 'f response \<times> 'f store option" where
  "create_order rt payload db =
     (case order_total rt (items payload) of
        Inl e \<Rightarrow> (HTTPException 500 (str_exn e), db)
      | Inr tot \<Rightarrow>
          (case db of
             None \<Rightarrow>
               (Return (PDict [(''ok'', PBool True), (''order_id'', PStr ''demo-order-1'')]),
                None)
           | Some st \<Rightarrow>
               (case create_document ''order'' (order_doc payload tot) st of
                  (Inl e, st') \<Rightarrow> (HTTPException 500 (str_exn e), Some st')
                | (Inr order_id, st') \<Rightarrow>
                    (Return (PDict [(''ok'', PBool True), (''order_id'', order_id)]),
                     Some st'))))"

subsection \<open>\<^verbatim>\<open>test_database\<close>\<close>

text \<open>The process environment, and \<^verbatim>\<open>os.getenv\<close>.\<close>

type_synonym environ = "(string \<times> string) list"

definition getenv :: "environ \<Rightarrow> string \<Rightarrow> string option" where
  "getenv env k = map_of env k"

text \<open>The marks of the report, as UTF-8: U+2705, U+274C, U+26A0 U+FE0F and
  U+2139 U+FE0F.\<close>

definition check_mark :: string where
  "check_mark = [CHR 0xE2, CHR 0x9C, CHR 0x85]"

definition cross_mark :: string where
  "cross_mark = [CHR 0xE2, CHR 0x9D, CHR 0x8C]"

definition warning_sign :: string where
  "warning_sign = [CHR 0xE2, CHR 0x9A, CHR 0xA0, CHR 0xEF, CHR 0xB8, CHR 0x8F]"

definition info_sign :: string where
  "info_sign = [CHR 0xE2, CHR 0x84, CHR 0xB9, CHR 0xEF, CHR 0xB8, CHR 0x8F]"

text \<open>\<^verbatim>\<open>"Set" if os.getenv(k) else "Not Set"\<close>: a variable that is not there and one
  whose value is the empty string are both false.\<close>

definition set_marker :: "string option \<Rightarrow> 'f pyval" where
  "set_marker v =
     (if v \<noteq> None \<and> v \<noteq> Some [] then PStr (check_mark @ '' Set'')
      else PStr (cross_mark @ '' Not Set''))"

definition initial_report :: "'f document" where
  "initial_report =
     [(''backend'', PStr (check_mark @ '' Running'')),
      (''database'', PStr (cross_mark @ '' Not Available'')),
      (''database_url'', PNone),
      (''database_name'', PNone),
      (''connection_status'', PStr ''Not Connected''),
      (''collections'', PList [])]"

text \<open>The inner \<^verbatim>\<open>try\<close>: list the collections; its handler catches everything.\<close>

definition probe_collections :: "'f document \<Rightarrow> 'f store \<Rightarrow> 'f document \<times> 'f store" where
  "probe_collections response st =
     (case list_collection_names st of
        (Inl e, st') \<Rightarrow>
          (dict_set response ''database'' (PStr (warning_sign @ ''  Connected but Error'')),
           st')
      | (Inr cs, st') \<Rightarrow>
          (dict_set (dict_set response ''collections'' (PList (take 10 cs)))
             ''database'' (PStr (check_mark @ '' Connected & Working'')),
           st'))"

text \<open>The branch \<^verbatim>\<open>db is not None\<close> of the outer \<^verbatim>\<open>try\<close>. The report is updated
  in place, so an exception keeps the updates made before it.\<close>

definition probe_store ::
  "environ \<Rightarrow> 'f document \<Rightarrow> 'f store \<Rightarrow> (exn + unit) \<times> 'f document \<times> 'f store" where
  "probe_store env response st =
     (let r1 = dict_set response ''database'' (PStr (check_mark @ '' Available''));
          r2 = dict_set r1 ''database_url'' (set_marker (getenv env ''DATABASE_URL''))
      in case hasattr_name st of
           (Inl e, st1) \<Rightarrow> (Inl e, r2, st1)
         | (Inr has, st1) \<Rightarrow>
             (case (if has then getattr_name st1
                    else (Inr (PStr (check_mark @ '' Connected'')), st1)) of
                (Inl e, st2) \<Rightarrow> (Inl e, r2, st2)
              | (Inr nm, st2) \<Rightarrow>
                  (let r3 = dict_set r2 ''database_name'' nm;
                       r4 = dict_set r3 ''connection_status'' (PStr ''Connected'')
                   in case probe_collections r4 st2 of
                        (r5, st3) \<Rightarrow> (Inr (), r5, st3))))"

definition test_database ::
  "environ \<Rightarrow> 'f store option \<Rightarrow> 'f response \<times> 'f store option" where
  "test_database env db =
     (let (response, db') =
            (case db of
               Some st \<Rightarrow>
                 (case probe_store env initial_report st of
                    (Inl e, r, st') \<Rightarrow>
                      (dict_set r ''database'' (PStr (cross_mark @ '' Error'')), Some st')
                  | (Inr _, r, st') \<Rightarrow> (r, Some st'))
             | None \<Rightarrow>
                 (dict_set initial_report ''database''
                    (PStr (info_sign @ '' Using demo mode (no database)'')),
                  None));
          response = dict_set response ''database_url'' (set_marker (getenv env ''DATABASE_URL''));
          response = dict_set response ''database_name'' (set_marker (getenv env ''DATABASE_NAME''))
      in (Return (PDict response), db'))"

section \<open>Notions for stating the results\<close>

text \<open>The fault that the next store access meets, and the store after that access
  has used it up.\<close>

definition head_fault :: "'f store \<Rightarrow> exn option" where
  "head_fault st = (case faults st of [] \<Rightarrow> None | f # _ \<Rightarrow> f)"

definition pop_fault :: "'f store \<Rightarrow> 'f store" where
  "pop_fault st = st\<lparr>faults := tl (faults st)\<rparr>"

text \<open>Documents as the store keeps them after inserting them one after the other,
  the first under the identity \<open>n\<close>.\<close>

fun with_ids :: "nat \<Rightarrow> 'f document list \<Rightarrow> 'f document list" where
  "with_ids n [] = []"
| "with_ids n (d # ds) = dict_set d ''_id'' (PObjectId n) # with_ids (Suc n) ds"

text \<open>The identity of a stored document; the invariant of a collection that every
  document got its identity from the counter, each a different one; and a document as
  the list operations return it, with the identity under \<^verbatim>\<open>id\<close>.\<close>

definition doc_oid :: "'f document \<Rightarrow> nat option" where
  "doc_oid d = (case map_of d ''_id'' of Some (PObjectId n) \<Rightarrow> Some n | _ \<Rightarrow> None)"

definition ids_fresh :: "'f store \<Rightarrow> string \<Rightarrow> bool" where
  "ids_fresh st c \<longleftrightarrow>
     list_all (\<lambda>d. case doc_oid d of Some n \<Rightarrow> n < next_oid st | None \<Rightarrow> False) (coll st c) \<and>
     distinct (map doc_oid (coll st c))"

definition remapped :: "'f runtime \<Rightarrow> 'f document \<Rightarrow> 'f document" where
  "remapped rt d = (case remap_id rt d of Inr d' \<Rightarrow> d' | Inl e \<Rightarrow> d)"

text \<open>What a caller can rely on in the identities of a returned list: no document
  has the store's key \<^verbatim>\<open>_id\<close>, each has a non-empty string under \<^verbatim>\<open>id\<close>, and
  these are pairwise different.\<close>

definition public_ids :: "'f document list \<Rightarrow> bool" where
  "public_ids ds \<longleftrightarrow>
     list_all (\<lambda>d. map_of d ''_id'' = None \<and>
                   (case map_of d ''id'' of Some (PStr s) \<Rightarrow> s \<noteq> [] | _ \<Rightarrow> False)) ds \<and>
     distinct (map (\<lambda>d. map_of d ''id'') ds)"

text \<open>The total as the specification words it: \<^verbatim>\<open>round(\<Sigma> max(1, q_i) \<times> p_i, 2)\<close>,
  with the sum and the rounding of the runtime.\<close>

definition spec_total :: "'f runtime \<Rightarrow> 'f OrderItemPayload list \<Rightarrow> 'f pyval" where
  "spec_total rt its =
     py_round2 rt (py_sum rt
       (map (\<lambda>i. float_mul rt (float_of_int rt (max 1 (quantity i))) (price i)) its))"

text \<open>A field of the object a handler returns, and whether an environment variable
  is set to a non-empty value.\<close>

definition report_field :: "'f response \<Rightarrow> string \<Rightarrow> 'f pyval option" where
  "report_field r k = (case r of Return (PDict d) \<Rightarrow> map_of d k | _ \<Rightarrow> None)"

definition env_nonempty :: "environ \<Rightarrow> string \<Rightarrow> bool" where
  "env_nonempty env k = (case getenv env k of None \<Rightarrow> False | Some v \<Rightarrow> v \<noteq> [])"

section \<open>An exact runtime for evaluation\<close>

text \<open>A runtime in which floats are rationals and the arithmetic is exact, to evaluate
  the service on concrete requests: \<^verbatim>\<open>round(x, 2)\<close> rounds the hundredths half to
  even.\<close>

definition round_half_even :: "rat \<Rightarrow> int" where
  "round_half_even x =
     (let f = \<lfloor>x\<rfloor>; r = x - of_int f
      in if r < 1 / 2 then f
         else if 1 / 2 < r then f + 1
         else if even f then f else f + 1)"

definition exact_runtime :: "rat runtime" where
  "exact_runtime =
     \<lparr>float_lit = (\<lambda>m k. of_int m / 10 ^ k),
      float_of_int = of_int,
      float_mul = (\<lambda>x y. x * y),
      float_sum = sum_list,
      float_round = (\<lambda>x n. if 0 \<le> n then of_int (round_half_even (x * 10 ^ nat n)) / 10 ^ nat n
                            else of_int (round_half_even (x / 10 ^ nat (- n))) * 10 ^ nat (- n)),
      str_other = (\<lambda>v. ''?'')\<rparr>"

definition empty_store :: "'f store" where
  "empty_store = \<lparr>db_name = Some ''snacksprint'', collections = [], next_oid = 0, faults = []\<rparr>"

text \<open>The empty store after one seeding: the restaurant under the identity 0, the
  three menu items under 1, 2 and 3, pointing at \<^verbatim>\<open>"0"\<close>.\<close>

definition seeded_store :: "rat store" where
  "seeded_store =
     \<lparr>db_name = Some ''snacksprint'',
      collections =
        [(''restaurant'',
          with_ids 0 (case restaurant_doc exact_runtime of Inr d \<Rightarrow> [d] | Inl e \<Rightarrow> [])),
         (''menuitem'', with_ids 1 (map (menu_doc (PStr ''0'')) (DEMO_MENU exact_runtime)))],
      next_oid = 4,
      faults = []\<rparr>"

text \<open>The seeded store when its next access raises, and a store whose documents
  lack the identity key.\<close>

definition failing_store :: "rat store" where
  "failing_store = seeded_store\<lparr>faults := [Some (Exception ''connection refused'')]\<rparr>"

definition broken_store :: "rat store" where
  "broken_store =
     \<lparr>db_name = None,
      collections =
        [(''restaurant'', [[(''name'', PStr ''Cafe'')]]),
         (''menuitem'', [[(''restaurant_id'', PStr ''r1''), (''name'', PStr ''Tea'')]])],
      next_oid = 0,
      faults = []\<rparr>"

text \<open>Two orders: one with a quantity of zero, one with a quantity too large for a
  float.\<close>

definition example_order :: "rat OrderPayload" where
  "example_order =
     \<lparr>restaurant_id = ''demo-1'', customer_name = ''Ada'', phone = ''555-0100'',
      address = ''1 Main St'', notes = None,
      items =
        [\<lparr>item_id = ''m1'', name = ''Classic Burger'', price = 999 / 100, quantity = 1\<rparr>,
         \<lparr>item_id = ''m2'', name = ''Veggie Bowl'', price = 849 / 100, quantity = 0\<rparr>]\<rparr>"

definition huge_order :: "rat OrderPayload" where
  "huge_order =
     \<lparr>restaurant_id = ''demo-1'', customer_name = ''Ada'', phone = ''555-0100'',
      address = ''1 Main St'', notes = None,
      items =
        [\<lparr>item_id = ''m1'', name = ''Classic Burger'', price = 999 / 100,
          quantity = 2 ^ 1024\<rparr>]\<rparr>"

text \<open>Three environments: two that set both variables, to different values, and one
  that sets the connection string to the empty string.\<close>

definition env_a :: environ where
  "env_a = [(''DATABASE_URL'', ''mongodb://alpha:27017''), (''DATABASE_NAME'', ''snacks'')]"

definition env_b :: environ where
  "env_b = [(''DATABASE_URL'', ''mongodb://beta:27017''), (''DATABASE_NAME'', ''sprint'')]"

definition env_empty_url :: environ where
  "env_empty_url = [(''DATABASE_URL'', []), (''DATABASE_NAME'', ''snacks'')]"

section \<open>Identities as strings\<close>

lemma digits10_nonempty [simp]: "digits10 n \<noteq> []" "[] \<noteq> digits10 n"
  by (subst digits10.simps, simp)+

lemma digit_char_inj:
  assumes "a < 10" and "b < 10" and "digit_char a = digit_char b"
  shows "a = b"
proof -
  have "distinct ''0123456789''" and "length ''0123456789'' = 10"
    by simp_all
  with assms show "a = b"
    unfolding digit_char_def by (metis nth_eq_iff_index_eq)
qed

lemma digits10_inj: "digits10 a = digits10 b \<Longrightarrow> a = b"
proof (induction a arbitrary: b rule: digits10.induct)
  case (1 n)
  show ?case
  proof (cases "n < 10")
    case True
    with "1.prems" have "digits10 b = [digit_char n]"
      by (subst (asm) digits10.simps) simp
    then have "b < 10 \<and> digit_char b = digit_char n"
      by (subst (asm) digits10.simps) (auto split: if_splits)
    with True show ?thesis
      using digit_char_inj by metis
  next
    case False
    with "1.prems" have e: "digits10 b = digits10 (n div 10) @ [digit_char (n mod 10)]"
      by (subst (asm) digits10.simps) simp
    have "\<not> b < 10"
    proof
      assume "b < 10"
      then have "digits10 b = [digit_char b]"
        by (subst digits10.simps) simp
      with e show False by simp
    qed
    then have "digits10 b = digits10 (b div 10) @ [digit_char (b mod 10)]"
      by (subst digits10.simps) simp
    with e have h: "digits10 (n div 10) = digits10 (b div 10)"
      and m: "digit_char (n mod 10) = digit_char (b mod 10)"
      by simp_all
    from "1.IH" [OF False h] have "n div 10 = b div 10" .
    moreover from m have "n mod 10 = b mod 10"
      using digit_char_inj [of "n mod 10" "b mod 10"] by simp
    ultimately show ?thesis
      by (metis div_mult_mod_eq)
  qed
qed

lemma oid_str_nonempty [simp]: "oid_str n \<noteq> []"
  by (simp add: oid_str_def)

lemma oid_str_eq_iff [simp]: "oid_str a = oid_str b \<longleftrightarrow> a = b"
  by (auto simp: oid_str_def dest: digits10_inj)

section \<open>The fixtures\<close>

lemma restaurant_doc_eq:
  "restaurant_doc rt = Inr
     [(''name'', PStr ''SnackSprint Diner''),
      (''description'', PStr ''Burgers, bowls and bites delivered fast''),
      (''image'', PStr ''https://images.unsplash.com/photo-1550547660-d9450f859349?w=1200''),
      (''cuisine'', PStr ''American''),
      (''rating'', PFloat (float_lit rt 47 1))]"
  by (simp add: restaurant_doc_def restaurant_keys_def DEMO_RESTAURANT_def dict_get_def)

lemma demo_restaurant_id_eq: "demo_restaurant_id rt = PStr ''demo-1''"
  by (simp add: demo_restaurant_id_def DEMO_RESTAURANT_def)

lemma length_DEMO_MENU: "length (DEMO_MENU rt) = 3"
  by (simp add: DEMO_MENU_def)

section \<open>The store\<close>

lemma next_fault_eq: "next_fault st = (head_fault st, pop_fault st)"
  by (cases st) (simp add: next_fault_def head_fault_def pop_fault_def split: list.splits)

lemma pop_fault_simps [simp]:
  "coll (pop_fault st) c = coll st c"
  "collections (pop_fault st) = collections st"
  "next_oid (pop_fault st) = next_oid st"
  "db_name (pop_fault st) = db_name st"
  "faults (pop_fault st) = tl (faults st)"
  by (simp_all add: pop_fault_def coll_def)

lemma insert_doc_simps [simp]:
  "coll (insert_doc c d st) c' =
     (if c' = c then coll st c @ [dict_set d ''_id'' (PObjectId (next_oid st))] else coll st c')"
  "next_oid (insert_doc c d st) = Suc (next_oid st)"
  "db_name (insert_doc c d st) = db_name st"
  "faults (insert_doc c d st) = faults st"
  by (simp_all add: insert_doc_def coll_def update_conv')

lemma matches_Nil [simp]: "matches [] d"
  by (simp add: matches_def)

lemma db_truth_eq:
  "db_truth st =
     (case head_fault st of
        Some e \<Rightarrow> (Inl e, pop_fault st)
      | None \<Rightarrow> (Inr True, pop_fault st))"
  by (simp add: db_truth_def next_fault_eq split: option.splits)

lemma count_documents_eq:
  "count_documents c flt st =
     (case head_fault st of
        Some e \<Rightarrow> (Inl e, pop_fault st)
      | None \<Rightarrow> (Inr (length (filter (matches flt) (coll st c))), pop_fault st))"
  by (simp add: count_documents_def next_fault_eq split: option.splits)

lemma create_document_eq:
  "create_document c d st =
     (case head_fault st of
        Some e \<Rightarrow> (Inl e, pop_fault st)
      | None \<Rightarrow> (Inr (PStr (oid_str (next_oid st))), insert_doc c d (pop_fault st)))"
  by (simp add: create_document_def next_fault_eq split: option.splits)

lemma get_documents_eq:
  "get_documents c flt st =
     (case head_fault st of
        Some e \<Rightarrow> (Inl e, pop_fault st)
      | None \<Rightarrow> (Inr (filter (matches flt) (coll st c)), pop_fault st))"
  by (simp add: get_documents_def next_fault_eq split: option.splits)

lemma length_with_ids [simp]: "length (with_ids n ds) = length ds"
  by (induction ds arbitrary: n) simp_all

section \<open>Documents\<close>

lemma map_of_dict_set [simp]:
  "map_of (dict_set d k v) k' = (if k' = k then Some v else map_of d k')"
  by (simp add: dict_set_def update_conv')

lemma map_of_dict_pop_default [simp]:
  "map_of (dict_pop_default d k) k' = (if k' = k then None else map_of d k')"
  by (simp add: dict_pop_default_def delete_conv')

lemma map_of_menu_doc [simp]:
  "map_of (menu_doc rid itm) ''restaurant_id'' = Some rid"
  "map_of (menu_doc rid itm) ''id'' = None"
  "map_of (menu_doc rid itm) ''_id'' = map_of itm ''_id''"
  by (simp_all add: menu_doc_def)

lemma doc_oid_dict_set [simp]: "doc_oid (dict_set d ''_id'' (PObjectId n)) = Some n"
  by (simp add: doc_oid_def)

lemma in_with_ids:
  "x \<in> set (with_ids n ds) \<Longrightarrow>
   \<exists>d\<in>set ds. \<exists>m. n \<le> m \<and> m < n + length ds \<and> x = dict_set d ''_id'' (PObjectId m)"
proof (induction ds arbitrary: n)
  case Nil
  then show ?case by simp
next
  case (Cons d ds)
  from Cons.prems consider "x = dict_set d ''_id'' (PObjectId n)" | "x \<in> set (with_ids (Suc n) ds)"
    by auto
  then show ?case
  proof cases
    case 1
    then show ?thesis by auto
  next
    case 2
    from Cons.IH [OF this] obtain d' m where "d' \<in> set ds" "Suc n \<le> m" "m < Suc n + length ds"
      "x = dict_set d' ''_id'' (PObjectId m)"
      by blast
    then show ?thesis
      by (intro bexI [of _ d'] exI [of _ m]) simp_all
  qed
qed

lemma doc_oid_with_ids: "map doc_oid (with_ids n ds) = map Some [n..<n + length ds]"
proof (induction ds arbitrary: n)
  case Nil
  then show ?case by simp
next
  case (Cons d ds)
  have "[n..<n + length (d # ds)] = n # [Suc n..<Suc n + length ds]"
    by (subst upt_rec) simp
  with Cons.IH [of "Suc n"] show ?case by simp
qed

lemma remap_id_ok:
  "map_of d ''_id'' = Some v \<Longrightarrow>
   remap_id rt d = Inr (dict_set (AList.delete ''_id'' d) ''id'' (PStr (py_str rt v)))"
  by (simp add: remap_id_def dict_pop_def)

lemma remap_id_KeyError:
  "map_of d ''_id'' = None \<Longrightarrow> remap_id rt d = Inl (KeyError ''_id'')"
  by (simp add: remap_id_def dict_pop_def)

lemma sequence_map_remap:
  "list_all (\<lambda>d. map_of d ''_id'' \<noteq> None) ds \<Longrightarrow>
   sequence (map (remap_id rt) ds) = Inr (map (remapped rt) ds)"
  by (induction ds) (auto simp: remapped_def remap_id_ok)

lemma remap_id_Inl: "remap_id rt d = Inl e \<Longrightarrow> e = KeyError ''_id''"
  by (auto simp: remap_id_def dict_pop_def split: option.splits)

lemma sequence_map_remap_Inl:
  "\<not> list_all (\<lambda>d. map_of d ''_id'' \<noteq> None) ds \<Longrightarrow>
   sequence (map (remap_id rt) ds) = Inl (KeyError ''_id'')"
  by (induction ds)
    (auto simp: remap_id_ok remap_id_KeyError split: sum.splits dest: remap_id_Inl)

lemma map_of_remapped:
  "map_of d ''_id'' = Some v \<Longrightarrow>
   map_of (remapped rt d) k =
     (if k = ''id'' then Some (PStr (py_str rt v)) else if k = ''_id'' then None else map_of d k)"
  by (simp add: remapped_def remap_id_ok delete_conv')

section \<open>Seeding\<close>

text \<open>The store after the loop over the menu, however the loop ends: the first \<open>k\<close>
  items are in, and all of them when it ends without an exception.\<close>

lemma seed_menu_state:
  "seed_menu rid itms st = (r, st') \<Longrightarrow>
   \<exists>k\<le>length itms. (r = Inr () \<longleftrightarrow> k = length itms) \<and>
     coll st' ''menuitem'' =
       coll st ''menuitem'' @ with_ids (next_oid st) (map (menu_doc rid) (take k itms)) \<and>
     (\<forall>c. c \<noteq> ''menuitem'' \<longrightarrow> coll st' c = coll st c) \<and>
     next_oid st' = next_oid st + k \<and> db_name st' = db_name st"
proof (induction itms arbitrary: st)
  case Nil
  then show ?case by auto
next
  case (Cons itm itms)
  show ?case
  proof (cases "head_fault st")
    case (Some e)
    with Cons.prems have "r = Inl e" "st' = pop_fault st"
      by (simp_all add: create_document_eq)
    then show ?thesis
      by (intro exI [of _ 0]) simp
  next
    case None
    let ?st1 = "insert_doc ''menuitem'' (menu_doc rid itm) (pop_fault st)"
    from None Cons.prems have "seed_menu rid itms ?st1 = (r, st')"
      by (simp add: create_document_eq)
    from Cons.IH [OF this] obtain k where "k \<le> length itms"
      "r = Inr () \<longleftrightarrow> k = length itms"
      "coll st' ''menuitem'' =
         coll ?st1 ''menuitem'' @ with_ids (next_oid ?st1) (map (menu_doc rid) (take k itms))"
      "\<forall>c. c \<noteq> ''menuitem'' \<longrightarrow> coll st' c = coll ?st1 c"
      "next_oid st' = next_oid ?st1 + k" "db_name st' = db_name ?st1"
      by blast
    then show ?thesis
      by (intro exI [of _ "Suc k"]) simp
  qed
qed

lemma seed_insert_state:
  assumes "seed_insert rt st = (r, st')"
  shows "(r \<noteq> Inr () \<and> collections st' = collections st \<and> next_oid st' = next_oid st) \<or>
    (\<exists>rdoc k. restaurant_doc rt = Inr rdoc \<and> k \<le> 3 \<and> (r = Inr () \<longleftrightarrow> k = 3) \<and>
       coll st' ''restaurant'' =
         coll st ''restaurant'' @ [dict_set rdoc ''_id'' (PObjectId (next_oid st))] \<and>
       coll st' ''menuitem'' =
         coll st ''menuitem'' @
           with_ids (Suc (next_oid st))
             (map (menu_doc (PStr (oid_str (next_oid st)))) (take k (DEMO_MENU rt))) \<and>
       next_oid st' = Suc (next_oid st) + k)"
proof -
  obtain rdoc where rdoc: "restaurant_doc rt = Inr rdoc"
    using restaurant_doc_eq by blast
  show ?thesis
  proof (cases "head_fault st")
    case (Some e)
    with assms rdoc have "r = Inl e" "st' = pop_fault st"
      by (simp_all add: seed_insert_def create_document_eq)
    then show ?thesis by simp
  next
    case None
    let ?st1 = "insert_doc ''restaurant'' rdoc (pop_fault st)"
    from None assms rdoc
    have "seed_menu (PStr (oid_str (next_oid st))) (DEMO_MENU rt) ?st1 = (r, st')"
      by (simp add: seed_insert_def create_document_eq)
    from seed_menu_state [OF this] obtain k where "k \<le> length (DEMO_MENU rt)"
      "r = Inr () \<longleftrightarrow> k = length (DEMO_MENU rt)"
      "coll st' ''menuitem'' = coll ?st1 ''menuitem'' @
         with_ids (next_oid ?st1)
           (map (menu_doc (PStr (oid_str (next_oid st)))) (take k (DEMO_MENU rt)))"
      "\<forall>c. c \<noteq> ''menuitem'' \<longrightarrow> coll st' c = coll ?st1 c"
      "next_oid st' = next_oid ?st1 + k"
      by blast
    with rdoc show ?thesis
      by (intro disjI2 exI [of _ rdoc] exI [of _ k]) (simp add: length_DEMO_MENU)
  qed
qed

text \<open>The store after \<^verbatim>\<open>seed_demo_data\<close>, however it ends: either nothing was
  inserted, or there was no restaurant and now there is the demo restaurant with the
  first \<open>k\<close> menu items, all three when the call succeeds.\<close>

lemma seed_try_state:
  assumes "seed_try rt st = (r, st')"
  shows "(collections st' = collections st \<and> next_oid st' = next_oid st \<and>
          (coll st ''restaurant'' = [] \<longrightarrow> (\<exists>e. r = Inl e))) \<or>
    (coll st ''restaurant'' = [] \<and>
     (\<exists>rdoc k. restaurant_doc rt = Inr rdoc \<and> k \<le> 3 \<and> ((\<exists>v. r = Inr v) \<longleftrightarrow> k = 3) \<and>
       coll st' ''restaurant'' = [dict_set rdoc ''_id'' (PObjectId (next_oid st))] \<and>
       coll st' ''menuitem'' =
         coll st ''menuitem'' @
           with_ids (Suc (next_oid st))
             (map (menu_doc (PStr (oid_str (next_oid st)))) (take k (DEMO_MENU rt))) \<and>
       next_oid st' = Suc (next_oid st) + k))"
proof (cases "head_fault st")
  case (Some e)
  with assms have "r = Inl e" "st' = pop_fault st"
    by (simp_all add: seed_try_def db_truth_eq)
  then show ?thesis by simp
next
  case None
  note h1 = None
  show ?thesis
  proof (cases "head_fault (pop_fault st)")
    case (Some e)
    with h1 assms have "r = Inl e" "st' = pop_fault (pop_fault st)"
      by (simp_all add: seed_try_def db_truth_eq count_documents_eq)
    then show ?thesis by simp
  next
    case None
    show ?thesis
    proof (cases "coll st ''restaurant'' = []")
      case False
      with h1 None assms have "st' = pop_fault (pop_fault st)"
        by (simp add: seed_try_def db_truth_eq count_documents_eq)
      with False show ?thesis by simp
    next
      case True
      obtain r0 st0 where s: "seed_insert rt (pop_fault (pop_fault st)) = (r0, st0)"
        by (cases "seed_insert rt (pop_fault (pop_fault st))")
      with h1 None True assms have rs: "st' = st0" "(\<exists>v. r = Inr v) \<longleftrightarrow> r0 = Inr ()"
        "(\<exists>e. r = Inl e) \<longleftrightarrow> r0 \<noteq> Inr ()"
        by (auto simp: seed_try_def db_truth_eq count_documents_eq split: sum.splits)
      from seed_insert_state [OF s] rs True show ?thesis
        by auto
    qed
  qed
qed

lemma seed_try_cases:
  assumes "seed_try rt st = (r, st')"
  obtains (nothing) "collections st' = collections st" "next_oid st' = next_oid st"
      "coll st ''restaurant'' = [] \<Longrightarrow> \<exists>e. r = Inl e"
  | (inserted) rdoc k where "coll st ''restaurant'' = []" "restaurant_doc rt = Inr rdoc"
      "k \<le> 3" "(\<exists>v. r = Inr v) \<longleftrightarrow> k = 3"
      "coll st' ''restaurant'' = [dict_set rdoc ''_id'' (PObjectId (next_oid st))]"
      "coll st' ''menuitem'' =
         coll st ''menuitem'' @
           with_ids (Suc (next_oid st))
             (map (menu_doc (PStr (oid_str (next_oid st)))) (take k (DEMO_MENU rt)))"
      "next_oid st' = Suc (next_oid st) + k"
proof (rule disjE [OF seed_try_state [OF assms]])
  assume "collections st' = collections st \<and> next_oid st' = next_oid st \<and>
          (coll st ''restaurant'' = [] \<longrightarrow> (\<exists>e. r = Inl e))"
  then show thesis by (elim conjE) (rule nothing, simp_all)
next
  assume "coll st ''restaurant'' = [] \<and>
     (\<exists>rdoc k. restaurant_doc rt = Inr rdoc \<and> k \<le> 3 \<and> ((\<exists>v. r = Inr v) \<longleftrightarrow> k = 3) \<and>
       coll st' ''restaurant'' = [dict_set rdoc ''_id'' (PObjectId (next_oid st))] \<and>
       coll st' ''menuitem'' =
         coll st ''menuitem'' @
           with_ids (Suc (next_oid st))
             (map (menu_doc (PStr (oid_str (next_oid st)))) (take k (DEMO_MENU rt))) \<and>
       next_oid st' = Suc (next_oid st) + k)"
  then show thesis by (elim conjE exE) (rule inserted)
qed

lemma seed_demo_data_Some:
  "seed_demo_data rt (Some st) = (r, Some st') \<Longrightarrow>
   \<exists>x. seed_try rt st = (x, st') \<and> ((\<exists>v. r = Return v) \<longleftrightarrow> (\<exists>v. x = Inr v))"
  by (auto simp: seed_demo_data_def split: prod.splits sum.splits)

lemma oid_str_0: "oid_str 0 = ''0''"
  by (simp add: oid_str_def digits10.simps digit_char_def)

lemma seed_empty_store:
  "seed_demo_data exact_runtime (Some empty_store) =
     (Return (PDict [(''ok'', PBool True), (''mode'', PStr ''db'')]), Some seeded_store)"
  by (simp add: seed_demo_data_def seed_try_def db_truth_def count_documents_def
      next_fault_def empty_store_def seed_insert_def restaurant_doc_eq create_document_def
      insert_doc_def coll_def DEMO_MENU_def seeded_store_def oid_str_0 menu_doc_def
      dict_set_def dict_pop_default_def demo_restaurant_id_eq)

lemma seed_seeded_store:
  "seed_demo_data exact_runtime (Some seeded_store) =
     (Return (PDict [(''ok'', PBool True), (''mode'', PStr ''db'')]), Some seeded_store)"
  by (simp add: seed_demo_data_def seed_try_def db_truth_def count_documents_def
      next_fault_def coll_def seeded_store_def restaurant_doc_eq)

text \<open>
  C2. In store-backed mode \<^verbatim>\<open>seed_demo_data\<close> is idempotent. When the store has a
  restaurant already, the call inserts nothing, however it ends: the collections and
  the identity counter are as before. So when the store has no restaurant and the
  call is made twice, both calls succeeding, the second changes nothing: the store
  holds exactly one restaurant, the demo restaurant, and the menu collection has grown
  by exactly the three demo items, each once.
\<close>

theorem seed_idempotent:
  "(coll st ''restaurant'' \<noteq> [] \<and> seed_demo_data rt (Some st) = (r, Some st') \<longrightarrow>
      collections st' = collections st \<and> next_oid st' = next_oid st) \<and>
   (coll st ''restaurant'' = [] \<and>
    seed_demo_data rt (Some st) = (Return r1, Some st1) \<and>
    seed_demo_data rt (Some st1) = (Return r2, Some st2) \<longrightarrow>
      (\<exists>rdoc. restaurant_doc rt = Inr rdoc \<and>
         coll st2 ''restaurant'' = with_ids (next_oid st) [rdoc]) \<and>
      coll st2 ''menuitem'' =
        coll st ''menuitem'' @
          with_ids (Suc (next_oid st))
            (map (menu_doc (PStr (oid_str (next_oid st)))) (DEMO_MENU rt)) \<and>
      collections st2 = collections st1 \<and> next_oid st2 = next_oid st1)"
proof (intro conjI impI)
  assume a: "coll st ''restaurant'' \<noteq> [] \<and> seed_demo_data rt (Some st) = (r, Some st')"
  then obtain x where "seed_try rt st = (x, st')"
    using seed_demo_data_Some by blast
  from seed_try_state [OF this] a
  show "collections st' = collections st" "next_oid st' = next_oid st"
    by auto
next
  assume a: "coll st ''restaurant'' = [] \<and>
    seed_demo_data rt (Some st) = (Return r1, Some st1) \<and>
    seed_demo_data rt (Some st1) = (Return r2, Some st2)"
  then obtain x1 x2 where t1: "seed_try rt st = (x1, st1)" "\<exists>v. x1 = Inr v"
    and t2: "seed_try rt st1 = (x2, st2)"
    using seed_demo_data_Some by blast
  from seed_try_state [OF t1(1)] t1(2) a
  obtain rdoc where one: "restaurant_doc rt = Inr rdoc"
    "coll st1 ''restaurant'' = with_ids (next_oid st) [rdoc]"
    "coll st1 ''menuitem'' =
       coll st ''menuitem'' @
         with_ids (Suc (next_oid st))
           (map (menu_doc (PStr (oid_str (next_oid st)))) (DEMO_MENU rt))"
    by (auto simp: length_DEMO_MENU [of rt, symmetric] simp del: length_DEMO_MENU)
  then have "coll st1 ''restaurant'' \<noteq> []" by simp
  with seed_try_state [OF t2]
  have same: "collections st2 = collections st1" "next_oid st2 = next_oid st1"
    by auto
  then have "coll st2 = coll st1"
    by (auto simp: coll_def fun_eq_iff)
  with one same
  show "\<exists>rdoc. restaurant_doc rt = Inr rdoc \<and>
         coll st2 ''restaurant'' = with_ids (next_oid st) [rdoc]"
    "coll st2 ''menuitem'' =
       coll st ''menuitem'' @
         with_ids (Suc (next_oid st))
           (map (menu_doc (PStr (oid_str (next_oid st)))) (DEMO_MENU rt))"
    "collections st2 = collections st1" "next_oid st2 = next_oid st1"
    by simp_all
qed

theorem seed_idempotent_witness:
  "coll seeded_store ''restaurant'' \<noteq> [] \<and>
   coll (empty_store :: rat store) ''restaurant'' = [] \<and>
   seed_demo_data exact_runtime (Some empty_store) =
     (Return (PDict [(''ok'', PBool True), (''mode'', PStr ''db'')]), Some seeded_store) \<and>
   seed_demo_data exact_runtime (Some seeded_store) =
     (Return (PDict [(''ok'', PBool True), (''mode'', PStr ''db'')]), Some seeded_store) \<and>
   length (coll seeded_store ''restaurant'') = 1 \<and>
   coll seeded_store ''menuitem'' =
     with_ids 1 (map (menu_doc (PStr ''0'')) (DEMO_MENU exact_runtime))"
proof -
  have h1: "coll seeded_store ''restaurant'' \<noteq> []"
    by (simp add: coll_def seeded_store_def restaurant_doc_eq)
  have h2: "coll (empty_store :: rat store) ''restaurant'' = []"
    and h3: "coll (empty_store :: rat store) ''menuitem'' = []"
    and h4: "next_oid (empty_store :: rat store) = 0"
    by (simp_all add: coll_def empty_store_def)
  note t = seed_idempotent [of empty_store exact_runtime _ _ _ seeded_store _ seeded_store]
  from t h2 seed_empty_store seed_seeded_store
  have "(\<exists>rdoc. restaurant_doc exact_runtime = Inr rdoc \<and>
           coll seeded_store ''restaurant'' = with_ids (next_oid (empty_store :: rat store)) [rdoc]) \<and>
        coll seeded_store ''menuitem'' =
          coll (empty_store :: rat store) ''menuitem'' @
            with_ids (Suc (next_oid (empty_store :: rat store)))
              (map (menu_doc (PStr (oid_str (next_oid (empty_store :: rat store)))))
                (DEMO_MENU exact_runtime))"
    by blast
  then have "length (coll seeded_store ''restaurant'') = 1 \<and>
    coll seeded_store ''menuitem'' =
      with_ids 1 (map (menu_doc (PStr ''0'')) (DEMO_MENU exact_runtime))"
    by (auto simp: h3 h4 oid_str_0)
  with h1 h2 seed_empty_store seed_seeded_store show ?thesis
    by simp
qed

lemma new_menu_docs:
  "list_all (\<lambda>d. map_of d ''restaurant_id'' = Some rid \<and> map_of d ''id'' = None)
     (with_ids n (map (menu_doc rid) itms))"
  unfolding list_all_iff
proof
  fix d assume "d \<in> set (with_ids n (map (menu_doc rid) itms))"
  from in_with_ids [OF this] obtain itm m
    where "d = dict_set (menu_doc rid itm) ''_id'' (PObjectId m)"
    by auto
  then show "map_of d ''restaurant_id'' = Some rid \<and> map_of d ''id'' = None"
    by simp
qed

text \<open>
  C7. When \<^verbatim>\<open>seed_demo_data\<close> inserts in store-backed mode, there was no restaurant
  and now there is exactly one, under the identity the store assigned to it; every
  menu item inserted by the call has no \<^verbatim>\<open>id\<close> key and has as
  \<^verbatim>\<open>restaurant_id\<close> the string of that identity, which is also the \<^verbatim>\<open>id\<close> under
  which the restaurant is listed. All three items are inserted when the call
  succeeds.
\<close>

theorem seeded_menu_restaurant_id:
  "seed_demo_data rt (Some st) = (r, Some st') \<and> collections st' \<noteq> collections st \<longrightarrow>
     (\<exists>rd new.
        coll st ''restaurant'' = [] \<and> coll st' ''restaurant'' = [rd] \<and>
        map_of rd ''_id'' = Some (PObjectId (next_oid st)) \<and>
        map_of (remapped rt rd) ''id'' = Some (PStr (oid_str (next_oid st))) \<and>
        coll st' ''menuitem'' = coll st ''menuitem'' @ new \<and>
        ((\<exists>v. r = Return v) \<longrightarrow> length new = 3) \<and>
        list_all (\<lambda>d. map_of d ''restaurant_id'' = Some (PStr (oid_str (next_oid st))) \<and>
                      map_of d ''id'' = None) new)"
proof
  assume a: "seed_demo_data rt (Some st) = (r, Some st') \<and> collections st' \<noteq> collections st"
  then obtain x where x: "seed_try rt st = (x, st')"
    and xr: "(\<exists>v. r = Return v) \<longleftrightarrow> (\<exists>v. x = Inr v)"
    using seed_demo_data_Some [of rt st r st'] by auto
  let ?rid = "PStr (oid_str (next_oid st)) :: 'a pyval"
  from x show "\<exists>rd new.
        coll st ''restaurant'' = [] \<and> coll st' ''restaurant'' = [rd] \<and>
        map_of rd ''_id'' = Some (PObjectId (next_oid st)) \<and>
        map_of (remapped rt rd) ''id'' = Some ?rid \<and>
        coll st' ''menuitem'' = coll st ''menuitem'' @ new \<and>
        ((\<exists>v. r = Return v) \<longrightarrow> length new = 3) \<and>
        list_all (\<lambda>d. map_of d ''restaurant_id'' = Some ?rid \<and> map_of d ''id'' = None) new"
  proof (cases rule: seed_try_cases)
    case nothing
    with a show ?thesis by simp
  next
    case (inserted rdoc k)
    let ?rd = "dict_set rdoc ''_id'' (PObjectId (next_oid st))"
    let ?new = "with_ids (Suc (next_oid st)) (map (menu_doc ?rid) (take k (DEMO_MENU rt)))"
    have 1: "list_all (\<lambda>d. map_of d ''restaurant_id'' = Some ?rid \<and> map_of d ''id'' = None) ?new"
      by (rule new_menu_docs)
    have 2: "(\<exists>v. r = Return v) \<longrightarrow> length ?new = 3"
      using inserted(3,4) xr by (simp add: length_DEMO_MENU)
    have 3: "map_of (remapped rt ?rd) ''id'' = Some ?rid"
      by (subst map_of_remapped [where v = "PObjectId (next_oid st)"]) (simp_all add: py_str_def)
    have 4: "map_of ?rd ''_id'' = Some (PObjectId (next_oid st))"
      by simp
    from inserted(1,5,6) 1 2 3 4 show ?thesis
      by (intro exI [of _ ?rd] exI [of _ ?new] conjI)
  qed
qed


lemma empty_store_simps:
  "coll (empty_store :: 'f store) c = []"
  "next_oid (empty_store :: 'f store) = 0"
  "collections (empty_store :: 'f store) = []"
  "faults (empty_store :: 'f store) = []"
  by (simp_all add: coll_def empty_store_def)

theorem seeded_menu_restaurant_id_witness:
  "seed_demo_data exact_runtime (Some empty_store) =
     (Return (PDict [(''ok'', PBool True), (''mode'', PStr ''db'')]), Some seeded_store) \<and>
   collections seeded_store \<noteq> collections (empty_store :: rat store) \<and>
   length (coll seeded_store ''menuitem'') = 3 \<and>
   list_all (\<lambda>d. map_of d ''restaurant_id'' = Some (PStr ''0'') \<and> map_of d ''id'' = None)
     (coll seeded_store ''menuitem'')"
proof -
  have h: "seed_demo_data exact_runtime (Some empty_store) =
      (Return (PDict [(''ok'', PBool True), (''mode'', PStr ''db'')]), Some seeded_store) \<and>
    collections seeded_store \<noteq> collections (empty_store :: rat store)"
    by (simp add: seed_empty_store) (simp add: seeded_store_def empty_store_def)
  from seeded_menu_restaurant_id [THEN mp, OF h]
  obtain rd new where "coll seeded_store ''menuitem'' = coll (empty_store :: rat store) ''menuitem'' @ new"
    "(\<exists>v. Return (PDict [(''ok'', PBool True), (''mode'', PStr ''db'')]) = (Return v :: rat response)) \<longrightarrow>
       length new = 3"
    "list_all (\<lambda>d. map_of d ''restaurant_id'' =
          Some (PStr (oid_str (next_oid (empty_store :: rat store)))) \<and>
        map_of d ''id'' = None) new"
    by (elim exE conjE)
  then have "length (coll seeded_store ''menuitem'') = 3 \<and>
    list_all (\<lambda>d. map_of d ''restaurant_id'' = Some (PStr ''0'') \<and> map_of d ''id'' = None)
      (coll seeded_store ''menuitem'')"
    by (simp add: empty_store_simps oid_str_0)
  with h show ?thesis by simp
qed

section \<open>Listing\<close>

lemma matches_restaurant_id [simp]:
  "matches [(''restaurant_id'', v)] d \<longleftrightarrow> map_of d ''restaurant_id'' = Some v"
  by (simp add: matches_def)

lemma matches_restaurant_id_fun:
  "matches [(''restaurant_id'', v)] = (\<lambda>d. map_of d ''restaurant_id'' = Some v)"
  by (simp add: fun_eq_iff)

lemma list_restaurants_Some:
  "list_restaurants rt (Some st) =
     (Return (PList
        (if head_fault st = None \<and> list_all (\<lambda>d. map_of d ''_id'' \<noteq> None) (coll st ''restaurant'')
         then map PDict (map (remapped rt) (coll st ''restaurant''))
         else [PDict (DEMO_RESTAURANT rt)])),
      Some (pop_fault st))"
proof (cases "head_fault st")
  case (Some e)
  then show ?thesis
    by (simp add: list_restaurants_def get_documents_eq)
next
  case None
  show ?thesis
  proof (cases "list_all (\<lambda>d. map_of d ''_id'' \<noteq> None) (coll st ''restaurant'')")
    case True
    with None sequence_map_remap [OF True, of rt] show ?thesis
      by (simp add: list_restaurants_def get_documents_eq)
  next
    case False
    with None sequence_map_remap_Inl [OF False, of rt] show ?thesis
      by (simp add: list_restaurants_def get_documents_eq)
  qed
qed

lemma list_menu_Some:
  "list_menu rt rid (Some st) =
     (Return (PList (map PDict
        (if head_fault st = None \<and>
            list_all (\<lambda>d. map_of d ''_id'' \<noteq> None)
              (filter (\<lambda>d. map_of d ''restaurant_id'' = Some (PStr rid)) (coll st ''menuitem''))
         then map (remapped rt)
                (filter (\<lambda>d. map_of d ''restaurant_id'' = Some (PStr rid)) (coll st ''menuitem''))
         else demo_menu_for rt rid))),
      Some (pop_fault st))"
proof (cases "head_fault st")
  case (Some e)
  then show ?thesis
    by (simp add: list_menu_def get_documents_eq matches_restaurant_id_fun)
next
  case None
  let ?items = "filter (\<lambda>d. map_of d ''restaurant_id'' = Some (PStr rid)) (coll st ''menuitem'')"
  show ?thesis
  proof (cases "list_all (\<lambda>d. map_of d ''_id'' \<noteq> None) ?items")
    case True
    with None sequence_map_remap [OF True, of rt] show ?thesis
      by (simp add: list_menu_def get_documents_eq matches_restaurant_id_fun)
  next
    case False
    with None sequence_map_remap_Inl [OF False, of rt] show ?thesis
      by (simp add: list_menu_def get_documents_eq matches_restaurant_id_fun)
  qed
qed

lemma demo_menu_for_other: "rid \<noteq> ''demo-1'' \<Longrightarrow> demo_menu_for rt rid = []"
  by (simp add: demo_menu_for_def DEMO_MENU_def demo_restaurant_id_eq)

lemma demo_menu_for_demo: "demo_menu_for rt ''demo-1'' = DEMO_MENU rt"
  by (simp add: demo_menu_for_def DEMO_MENU_def demo_restaurant_id_eq)

lemma demo_menu_for_rid:
  "list_all (\<lambda>d. map_of d ''restaurant_id'' = Some (PStr rid)) (demo_menu_for rt rid)"
  by (simp add: demo_menu_for_def list_all_iff)

lemma remapped_restaurant_id:
  "map_of d ''_id'' \<noteq> None \<Longrightarrow>
   map_of (remapped rt d) ''restaurant_id'' = map_of d ''restaurant_id''"
  by (auto simp: map_of_remapped)

text \<open>
  C3. \<^verbatim>\<open>list_restaurants\<close> and \<^verbatim>\<open>list_menu\<close> always return a value (status 200),
  in demo mode and for every store state, that is for every pattern of store failures.
  When the query raises, or when a document that the query returns has no identity
  key so that the remapping raises \<^verbatim>\<open>KeyError\<close>, they return the demo restaurant,
  respectively the demo menu filtered by the restaurant id.
\<close>

theorem list_endpoints_never_raise:
  "(\<exists>v db'. list_restaurants rt db = (Return v, db')) \<and>
   (\<exists>v db'. list_menu rt rid db = (Return v, db')) \<and>
   (head_fault st = Some e \<longrightarrow>
      list_restaurants rt (Some st) =
        (Return (PList [PDict (DEMO_RESTAURANT rt)]), Some (pop_fault st)) \<and>
      list_menu rt rid (Some st) =
        (Return (PList (map PDict (demo_menu_for rt rid))), Some (pop_fault st))) \<and>
   (d \<in> set (coll st ''restaurant'') \<and> map_of d ''_id'' = None \<longrightarrow>
      list_restaurants rt (Some st) =
        (Return (PList [PDict (DEMO_RESTAURANT rt)]), Some (pop_fault st))) \<and>
   (d \<in> set (coll st ''menuitem'') \<and> map_of d ''restaurant_id'' = Some (PStr rid) \<and>
    map_of d ''_id'' = None \<longrightarrow>
      list_menu rt rid (Some st) =
        (Return (PList (map PDict (demo_menu_for rt rid))), Some (pop_fault st)))"
proof (intro conjI impI)
  show "\<exists>v db'. list_restaurants rt db = (Return v, db')"
  proof (cases db)
    case None
    then show ?thesis by (simp add: list_restaurants_def)
  next
    case (Some s)
    then show ?thesis by (simp add: list_restaurants_Some)
  qed
  show "\<exists>v db'. list_menu rt rid db = (Return v, db')"
  proof (cases db)
    case None
    then show ?thesis by (simp add: list_menu_def)
  next
    case (Some s)
    then show ?thesis by (simp add: list_menu_Some)
  qed
next
  assume "head_fault st = Some e"
  then show "list_restaurants rt (Some st) =
      (Return (PList [PDict (DEMO_RESTAURANT rt)]), Some (pop_fault st))"
    and "list_menu rt rid (Some st) =
      (Return (PList (map PDict (demo_menu_for rt rid))), Some (pop_fault st))"
    by (simp_all add: list_restaurants_Some list_menu_Some)
next
  assume "d \<in> set (coll st ''restaurant'') \<and> map_of d ''_id'' = None"
  then have "\<not> list_all (\<lambda>d. map_of d ''_id'' \<noteq> None) (coll st ''restaurant'')"
    by (auto simp: list_all_iff)
  then show "list_restaurants rt (Some st) =
      (Return (PList [PDict (DEMO_RESTAURANT rt)]), Some (pop_fault st))"
    by (simp add: list_restaurants_Some)
next
  assume "d \<in> set (coll st ''menuitem'') \<and> map_of d ''restaurant_id'' = Some (PStr rid) \<and>
    map_of d ''_id'' = None"
  then have "\<not> list_all (\<lambda>d. map_of d ''_id'' \<noteq> None)
      (filter (\<lambda>d. map_of d ''restaurant_id'' = Some (PStr rid)) (coll st ''menuitem''))"
    by (auto simp: list_all_iff)
  then show "list_menu rt rid (Some st) =
      (Return (PList (map PDict (demo_menu_for rt rid))), Some (pop_fault st))"
    by (simp add: list_menu_Some)
qed

lemma failing_store_simps:
  "head_fault failing_store = Some (Exception ''connection refused'')"
  "pop_fault failing_store = seeded_store"
  by (simp_all add: failing_store_def head_fault_def pop_fault_def seeded_store_def)

lemma broken_store_simps:
  "head_fault broken_store = None"
  "pop_fault broken_store = broken_store"
  "coll broken_store ''restaurant'' = [[(''name'', PStr ''Cafe'')]]"
  "coll broken_store ''menuitem'' = [[(''restaurant_id'', PStr ''r1''), (''name'', PStr ''Tea'')]]"
  by (simp_all add: broken_store_def head_fault_def pop_fault_def coll_def)

theorem list_endpoints_never_raise_witness:
  "head_fault failing_store = Some (Exception ''connection refused'') \<and>
   list_restaurants exact_runtime (Some failing_store) =
     (Return (PList [PDict (DEMO_RESTAURANT exact_runtime)]), Some seeded_store) \<and>
   list_menu exact_runtime ''demo-1'' (Some failing_store) =
     (Return (PList (map PDict (DEMO_MENU exact_runtime))), Some seeded_store) \<and>
   [(''name'', PStr ''Cafe'')] \<in> set (coll broken_store ''restaurant'') \<and>
   map_of [(''name'', PStr ''Cafe'' :: rat pyval)] ''_id'' = None \<and>
   list_restaurants exact_runtime (Some broken_store) =
     (Return (PList [PDict (DEMO_RESTAURANT exact_runtime)]), Some broken_store) \<and>
   [(''restaurant_id'', PStr ''r1''), (''name'', PStr ''Tea'')] \<in> set (coll broken_store ''menuitem'') \<and>
   list_menu exact_runtime ''r1'' (Some broken_store) = (Return (PList []), Some broken_store)"
proof -
  note t1 = list_endpoints_never_raise [of exact_runtime _ "''demo-1''" failing_store
      "Exception ''connection refused''"]
  note t2 = list_endpoints_never_raise [of exact_runtime _ "''r1''" broken_store _
      "[(''name'', PStr ''Cafe'')]"]
  note t3 = list_endpoints_never_raise [of exact_runtime _ "''r1''" broken_store _
      "[(''restaurant_id'', PStr ''r1''), (''name'', PStr ''Tea'')]"]
  from t1 have a: "list_restaurants exact_runtime (Some failing_store) =
      (Return (PList [PDict (DEMO_RESTAURANT exact_runtime)]), Some seeded_store)"
    "list_menu exact_runtime ''demo-1'' (Some failing_store) =
      (Return (PList (map PDict (DEMO_MENU exact_runtime))), Some seeded_store)"
    by (simp_all add: failing_store_simps demo_menu_for_demo)
  from t2 have b: "list_restaurants exact_runtime (Some broken_store) =
      (Return (PList [PDict (DEMO_RESTAURANT exact_runtime)]), Some broken_store)"
    by (simp add: broken_store_simps)
  from t3 have c: "list_menu exact_runtime ''r1'' (Some broken_store) =
      (Return (PList []), Some broken_store)"
    by (simp add: broken_store_simps demo_menu_for_other)
  from a b c show ?thesis
    by (simp add: failing_store_simps broken_store_simps)
qed

text \<open>
  C6. \<^verbatim>\<open>list_menu\<close> filters by equality of \<^verbatim>\<open>restaurant_id\<close> with the input
  string. In every mode and store state it returns a list (never an error) of items
  whose \<^verbatim>\<open>restaurant_id\<close> is the input. In demo mode these are exactly the demo items
  with that \<^verbatim>\<open>restaurant_id\<close>, none for an id other than \<^verbatim>\<open>demo-1\<close>. In
  store-backed mode, when the query succeeds and the matching documents carry an
  identity, they are exactly the stored menu items with that \<^verbatim>\<open>restaurant_id\<close>, each
  with its identity remapped. When no stored item matches, the result is empty,
  provided the query succeeds or the id is not \<^verbatim>\<open>demo-1\<close> (on a failed query the
  demo menu is filtered instead).
\<close>

theorem list_menu_filters:
  "(\<exists>ds db'. list_menu rt rid db = (Return (PList (map PDict ds)), db') \<and>
      list_all (\<lambda>d. map_of d ''restaurant_id'' = Some (PStr rid)) ds) \<and>
   list_menu rt rid None =
     (Return (PList (map PDict
        (filter (\<lambda>m. map_of m ''restaurant_id'' = Some (PStr rid)) (DEMO_MENU rt)))), None) \<and>
   (rid \<noteq> ''demo-1'' \<longrightarrow> list_menu rt rid None = (Return (PList []), None)) \<and>
   (head_fault st = None \<and>
    list_all (\<lambda>d. map_of d ''_id'' \<noteq> None)
      (filter (\<lambda>d. map_of d ''restaurant_id'' = Some (PStr rid)) (coll st ''menuitem'')) \<longrightarrow>
      list_menu rt rid (Some st) =
        (Return (PList (map PDict (map (remapped rt)
           (filter (\<lambda>d. map_of d ''restaurant_id'' = Some (PStr rid)) (coll st ''menuitem''))))),
         Some (pop_fault st))) \<and>
   (filter (\<lambda>d. map_of d ''restaurant_id'' = Some (PStr rid)) (coll st ''menuitem'') = [] \<and>
    (head_fault st = None \<or> rid \<noteq> ''demo-1'') \<longrightarrow>
      list_menu rt rid (Some st) = (Return (PList []), Some (pop_fault st)))"
proof (intro conjI impI)
  show "\<exists>ds db'. list_menu rt rid db = (Return (PList (map PDict ds)), db') \<and>
      list_all (\<lambda>d. map_of d ''restaurant_id'' = Some (PStr rid)) ds"
  proof (cases db)
    case None
    then have "list_menu rt rid db = (Return (PList (map PDict (demo_menu_for rt rid))), None)"
      by (simp add: list_menu_def)
    with demo_menu_for_rid [of rid rt] show ?thesis by blast
  next
    case (Some s)
    let ?items = "filter (\<lambda>d. map_of d ''restaurant_id'' = Some (PStr rid)) (coll s ''menuitem'')"
    show ?thesis
    proof (cases "head_fault s = None \<and> list_all (\<lambda>d. map_of d ''_id'' \<noteq> None) ?items")
      case True
      then have "list_menu rt rid db =
          (Return (PList (map PDict (map (remapped rt) ?items))), Some (pop_fault s))"
        using Some by (simp add: list_menu_Some)
      moreover from True
      have "list_all (\<lambda>d. map_of d ''restaurant_id'' = Some (PStr rid)) (map (remapped rt) ?items)"
        by (auto simp: list_all_iff remapped_restaurant_id)
      ultimately show ?thesis by blast
    next
      case False
      then have "list_menu rt rid db =
          (Return (PList (map PDict (demo_menu_for rt rid))), Some (pop_fault s))"
        using Some by (auto simp: list_menu_Some)
      with demo_menu_for_rid [of rid rt] show ?thesis by blast
    qed
  qed
next
  show "list_menu rt rid None =
     (Return (PList (map PDict
        (filter (\<lambda>m. map_of m ''restaurant_id'' = Some (PStr rid)) (DEMO_MENU rt)))), None)"
    by (simp add: list_menu_def demo_menu_for_def)
next
  assume "rid \<noteq> ''demo-1''"
  then show "list_menu rt rid None = (Return (PList []), None)"
    by (simp add: list_menu_def demo_menu_for_other)
next
  assume "head_fault st = None \<and>
    list_all (\<lambda>d. map_of d ''_id'' \<noteq> None)
      (filter (\<lambda>d. map_of d ''restaurant_id'' = Some (PStr rid)) (coll st ''menuitem''))"
  then show "list_menu rt rid (Some st) =
        (Return (PList (map PDict (map (remapped rt)
           (filter (\<lambda>d. map_of d ''restaurant_id'' = Some (PStr rid)) (coll st ''menuitem''))))),
         Some (pop_fault st))"
    by (simp add: list_menu_Some)
next
  assume a: "filter (\<lambda>d. map_of d ''restaurant_id'' = Some (PStr rid)) (coll st ''menuitem'') = [] \<and>
    (head_fault st = None \<or> rid \<noteq> ''demo-1'')"
  show "list_menu rt rid (Some st) = (Return (PList []), Some (pop_fault st))"
  proof (cases "head_fault st = None")
    case True
    with a show ?thesis by (simp add: list_menu_Some)
  next
    case False
    with a have "rid \<noteq> ''demo-1''" by simp
    with a show ?thesis by (simp add: list_menu_Some demo_menu_for_other)
  qed
qed


lemma with_ids_has_id: "list_all (\<lambda>d. map_of d ''_id'' \<noteq> None) (with_ids n ds)"
  unfolding list_all_iff
proof
  fix d assume "d \<in> set (with_ids n ds)"
  from in_with_ids [OF this] obtain d' m where "d = dict_set d' ''_id'' (PObjectId m)"
    by auto
  then show "map_of d ''_id'' \<noteq> None" by simp
qed

lemma seeded_store_simps:
  "head_fault seeded_store = None"
  "pop_fault seeded_store = seeded_store"
  "coll seeded_store ''menuitem'' =
     with_ids 1 (map (menu_doc (PStr ''0'')) (DEMO_MENU exact_runtime))"
  by (simp_all add: seeded_store_def head_fault_def pop_fault_def coll_def)

lemma seeded_menu_filter:
  "filter (\<lambda>d. map_of d ''restaurant_id'' = Some (PStr rid)) (coll seeded_store ''menuitem'') =
     (if rid = ''0'' then coll seeded_store ''menuitem'' else [])"
proof -
  have "\<forall>d\<in>set (coll seeded_store ''menuitem''). map_of d ''restaurant_id'' = Some (PStr ''0'')"
    using new_menu_docs [of "PStr ''0''" 1 "DEMO_MENU exact_runtime"]
    by (simp add: seeded_store_simps list_all_iff)
  then show ?thesis
    by (auto simp: filter_empty_conv filter_id_conv)
qed

theorem list_menu_filters_witness:
  "''nonexistent-id'' \<noteq> ''demo-1'' \<and>
   list_menu exact_runtime ''nonexistent-id'' None = (Return (PList []), None) \<and>
   head_fault seeded_store = None \<and>
   list_all (\<lambda>d. map_of d ''_id'' \<noteq> None)
     (filter (\<lambda>d. map_of d ''restaurant_id'' = Some (PStr ''0'')) (coll seeded_store ''menuitem'')) \<and>
   list_menu exact_runtime ''0'' (Some seeded_store) =
     (Return (PList (map PDict (map (remapped exact_runtime) (coll seeded_store ''menuitem'')))),
      Some seeded_store) \<and>
   length (coll seeded_store ''menuitem'') = 3 \<and>
   filter (\<lambda>d. map_of d ''restaurant_id'' = Some (PStr ''nonexistent-id''))
     (coll seeded_store ''menuitem'') = [] \<and>
   list_menu exact_runtime ''nonexistent-id'' (Some seeded_store) =
     (Return (PList []), Some seeded_store)"
proof -
  have h1: "''nonexistent-id'' \<noteq> ''demo-1''" by simp
  have h2: "head_fault seeded_store = None \<and>
    list_all (\<lambda>d. map_of d ''_id'' \<noteq> None)
      (filter (\<lambda>d. map_of d ''restaurant_id'' = Some (PStr ''0'')) (coll seeded_store ''menuitem''))"
    using with_ids_has_id [of 1 "map (menu_doc (PStr ''0'')) (DEMO_MENU exact_runtime)"]
    by (simp add: seeded_menu_filter) (simp add: seeded_store_simps)
  have h3: "filter (\<lambda>d. map_of d ''restaurant_id'' = Some (PStr ''nonexistent-id''))
      (coll seeded_store ''menuitem'') = [] \<and>
    (head_fault seeded_store = None \<or> ''nonexistent-id'' \<noteq> ''demo-1'')"
    by (simp add: seeded_menu_filter seeded_store_simps(1))
  note t1 = list_menu_filters [of exact_runtime "''nonexistent-id''" None seeded_store]
  note t2 = list_menu_filters [of exact_runtime "''0''" None seeded_store]
  note a = t1 [THEN conjunct2, THEN conjunct2, THEN conjunct1, THEN mp, OF h1]
  from t2 [THEN conjunct2, THEN conjunct2, THEN conjunct2, THEN conjunct1, THEN mp, OF h2]
  have b: "list_menu exact_runtime ''0'' (Some seeded_store) =
     (Return (PList (map PDict (map (remapped exact_runtime) (coll seeded_store ''menuitem'')))),
      Some seeded_store)"
    by (simp add: seeded_menu_filter seeded_store_simps(2))
  from t1 [THEN conjunct2, THEN conjunct2, THEN conjunct2, THEN conjunct2, THEN mp, OF h3]
  have c: "list_menu exact_runtime ''nonexistent-id'' (Some seeded_store) =
     (Return (PList []), Some seeded_store)"
    by (simp add: seeded_store_simps(2))
  have d: "length (coll seeded_store ''menuitem'') = 3"
    by (simp add: seeded_store_simps length_DEMO_MENU)
  from h1 h2 h3 a b c d show ?thesis by simp
qed

section \<open>Identities of listed documents\<close>

lemma ids_fresh_iff:
  "ids_fresh st c \<longleftrightarrow>
     (\<forall>d\<in>set (coll st c). \<exists>n<next_oid st. doc_oid d = Some n) \<and>
     distinct (map doc_oid (coll st c))"
  by (auto simp: ids_fresh_def list_all_iff split: option.splits)

lemma doc_oid_Some: "doc_oid d = Some n \<Longrightarrow> map_of d ''_id'' = Some (PObjectId n)"
  by (auto simp: doc_oid_def split: option.splits pyval.splits)

lemma seed_try_ids_fresh:
  assumes "ids_fresh st ''menuitem''" and "seed_try rt st = (x, st')"
  shows "ids_fresh st' ''menuitem''"
  using assms(2)
proof (cases rule: seed_try_cases)
  case nothing
  note n = this
  from n(1) have "coll st' ''menuitem'' = coll st ''menuitem''"
    by (simp add: coll_def)
  with n(2) assms(1) show ?thesis
    by (simp add: ids_fresh_iff)
next
  case (inserted rdoc k)
  let ?n = "next_oid st"
  let ?old = "coll st ''menuitem''"
  let ?new = "with_ids (Suc ?n) (map (menu_doc (PStr (oid_str ?n))) (take k (DEMO_MENU rt)))"
  have len: "length (map (menu_doc (PStr (oid_str ?n))) (take k (DEMO_MENU rt))) = k"
    using inserted(3) by (simp add: length_DEMO_MENU)
  have new: "map doc_oid ?new = map Some [Suc ?n..<Suc ?n + k]"
    by (simp only: doc_oid_with_ids len)
  then have snew: "set (map doc_oid ?new) = Some ` {Suc ?n..<Suc ?n + k}"
    by (simp only: set_map set_upt)
  from new have dnew: "distinct (map doc_oid ?new)"
    by (simp add: distinct_map del: upt_Suc)
  from assms(1) have old: "\<forall>d\<in>set ?old. \<exists>m<?n. doc_oid d = Some m"
    and dold: "distinct (map doc_oid ?old)"
    by (simp_all add: ids_fresh_iff)
  have bound: "\<forall>d\<in>set (?old @ ?new). \<exists>m<Suc ?n + k. doc_oid d = Some m"
  proof
    fix d assume "d \<in> set (?old @ ?new)"
    then consider "d \<in> set ?old" | "d \<in> set ?new" by auto
    then show "\<exists>m<Suc ?n + k. doc_oid d = Some m"
    proof cases
      case 1
      with old obtain m where "m < ?n" "doc_oid d = Some m" by blast
      then show ?thesis by (intro exI [of _ m]) simp
    next
      case 2
      then have "doc_oid d \<in> set (map doc_oid ?new)"
        by (simp only: set_map image_eqI)
      with snew have "doc_oid d \<in> Some ` {Suc ?n..<Suc ?n + k}"
        by (simp only:)
      then show ?thesis by auto
    qed
  qed
  have disj: "set (map doc_oid ?old) \<inter> set (map doc_oid ?new) = {}"
    unfolding snew using old by auto
  have "distinct (map doc_oid (?old @ ?new))"
    using dold dnew disj by (simp only: map_append distinct_append)
  with bound inserted(6,7) show ?thesis
    by (simp only: ids_fresh_iff)
qed

lemma public_ids_demo: "public_ids (demo_menu_for rt rid)"
proof -
  have "list_all (\<lambda>d. map_of d ''_id'' = None \<and>
      (case map_of d ''id'' of Some (PStr s) \<Rightarrow> s \<noteq> [] | _ \<Rightarrow> False)) (DEMO_MENU rt)"
    and "distinct (map (\<lambda>d. map_of d ''id'') (DEMO_MENU rt))"
    by (simp_all add: DEMO_MENU_def)
  then show ?thesis
    unfolding public_ids_def demo_menu_for_def
    by (simp add: list_all_iff distinct_map_filter)
qed

lemma public_ids_remapped:
  assumes "\<forall>d\<in>set ds. \<exists>n. doc_oid d = Some n" and "distinct (map doc_oid ds)"
  shows "public_ids (map (remapped rt) ds)"
proof -
  have r: "map_of (remapped rt d) k =
      (if k = ''id'' then Some (PStr (oid_str n)) else if k = ''_id'' then None else map_of d k)"
    if "doc_oid d = Some n" for d n k
    using map_of_remapped [OF doc_oid_Some [OF that], of rt k] by (simp add: py_str_def)
  have 1: "list_all (\<lambda>d. map_of d ''_id'' = None \<and>
      (case map_of d ''id'' of Some (PStr s) \<Rightarrow> s \<noteq> [] | _ \<Rightarrow> False)) (map (remapped rt) ds)"
    unfolding list_all_iff
  proof
    fix d' assume "d' \<in> set (map (remapped rt) ds)"
    then obtain d where "d \<in> set ds" "d' = remapped rt d" by auto
    with assms(1) obtain n where "doc_oid d = Some n" by blast
    with \<open>d' = remapped rt d\<close> show "map_of d' ''_id'' = None \<and>
      (case map_of d' ''id'' of Some (PStr s) \<Rightarrow> s \<noteq> [] | _ \<Rightarrow> False)"
      by (simp add: r)
  qed
  let ?g = "map_option (\<lambda>n. PStr (oid_str n) :: 'a pyval)"
  have eq: "map ((\<lambda>d. map_of d ''id'') \<circ> remapped rt) ds = map (?g \<circ> doc_oid) ds"
  proof (rule map_cong [OF refl])
    fix d assume "d \<in> set ds"
    with assms(1) obtain n where "doc_oid d = Some n" by blast
    then show "((\<lambda>d. map_of d ''id'') \<circ> remapped rt) d = (?g \<circ> doc_oid) d"
      by (simp add: r)
  qed
  have "inj ?g"
    by (rule option.inj_map) (simp add: inj_on_def)
  then have "distinct (map ?g (map doc_oid ds))"
    using assms(2) by (simp add: distinct_map inj_on_def)
  then have "distinct (map (?g \<circ> doc_oid) ds)"
    by (simp only: map_map)
  then have 2: "distinct (map (\<lambda>d. map_of d ''id'') (map (remapped rt) ds))"
    by (simp only: map_map eq)
  from 1 2 show ?thesis
    unfolding public_ids_def by simp
qed

text \<open>
  C9. Round trip of store identities. Take a store whose menu items got their
  identities from the store, seed it, and list a menu: whatever the store does, every
  returned document has lost the store's key \<^verbatim>\<open>_id\<close> and has a non-empty string
  under \<^verbatim>\<open>id\<close>, different for different documents. When the seeding inserted (no
  restaurant before, the call succeeded) and the query for the new restaurant's
  identity succeeds, the three seeded menu items are returned with their identities
  remapped, after the stored items that already pointed at that identity.
\<close>

theorem menu_identity_round_trip:
  "ids_fresh st ''menuitem'' \<and> seed_demo_data rt (Some st) = (r, Some st1) \<longrightarrow>
     (\<exists>ds. list_menu rt rid (Some st1) = (Return (PList (map PDict ds)), Some (pop_fault st1)) \<and>
        public_ids ds \<and>
        (coll st ''restaurant'' = [] \<and> (\<exists>v. r = Return v) \<and> head_fault st1 = None \<and>
         rid = oid_str (next_oid st) \<longrightarrow>
           ds = map (remapped rt)
                  (filter (\<lambda>d. map_of d ''restaurant_id'' = Some (PStr rid)) (coll st ''menuitem'')) @
                map (remapped rt)
                  (with_ids (Suc (next_oid st)) (map (menu_doc (PStr rid)) (DEMO_MENU rt)))))"
proof
  assume a: "ids_fresh st ''menuitem'' \<and> seed_demo_data rt (Some st) = (r, Some st1)"
  then obtain x where x: "seed_try rt st = (x, st1)"
    and xr: "(\<exists>v. r = Return v) \<longleftrightarrow> (\<exists>v. x = Inr v)"
    using seed_demo_data_Some [of rt st r st1] by auto
  from a x have fresh: "ids_fresh st1 ''menuitem''"
    using seed_try_ids_fresh by blast
  let ?P = "\<lambda>d::'a document. map_of d ''restaurant_id'' = Some (PStr rid)"
  let ?items = "filter ?P (coll st1 ''menuitem'')"
  let ?ok = "head_fault st1 = None \<and> list_all (\<lambda>d. map_of d ''_id'' \<noteq> None) ?items"
  let ?D = "if ?ok then map (remapped rt) ?items else demo_menu_for rt rid"
  from fresh have all: "\<forall>d\<in>set (coll st1 ''menuitem''). \<exists>n. doc_oid d = Some n"
    and dist: "distinct (map doc_oid (coll st1 ''menuitem''))"
    by (auto simp: ids_fresh_iff)
  have has_id: "list_all (\<lambda>d. map_of d ''_id'' \<noteq> None) ?items"
    unfolding list_all_iff
  proof
    fix d assume "d \<in> set ?items"
    with all obtain n where "doc_oid d = Some n" by auto
    then show "map_of d ''_id'' \<noteq> None" by (simp add: doc_oid_Some)
  qed
  have 1: "list_menu rt rid (Some st1) = (Return (PList (map PDict ?D)), Some (pop_fault st1))"
    by (simp only: list_menu_Some)
  have pr: "public_ids (map (remapped rt) ?items)"
    using all dist by (intro public_ids_remapped) (auto simp: distinct_map_filter)
  have 2: "public_ids ?D"
    using pr public_ids_demo [of rt rid] by (rule if_split [THEN iffD2, OF conjI [OF impI impI]])
  have 3: "?D = map (remapped rt) (filter ?P (coll st ''menuitem'')) @
      map (remapped rt) (with_ids (Suc (next_oid st)) (map (menu_doc (PStr rid)) (DEMO_MENU rt)))"
    if h: "coll st ''restaurant'' = [] \<and> (\<exists>v. r = Return v) \<and> head_fault st1 = None \<and>
      rid = oid_str (next_oid st)"
    using x
  proof (cases rule: seed_try_cases)
    case nothing
    note n = this
    from n(3) h xr show ?thesis by auto
  next
    case (inserted rdoc k)
    from inserted(4) h xr have k: "k = 3" by simp
    let ?new = "with_ids (Suc (next_oid st)) (map (menu_doc (PStr rid)) (DEMO_MENU rt))"
    from inserted(6) k h have c: "coll st1 ''menuitem'' = coll st ''menuitem'' @ ?new"
      by (simp add: length_DEMO_MENU [of rt, symmetric])
    have "\<forall>d\<in>set ?new. ?P d"
      using new_menu_docs [of "PStr rid" "Suc (next_oid st)" "DEMO_MENU rt"]
      by (simp add: list_all_iff)
    then have "filter ?P ?new = ?new"
      by (simp add: filter_id_conv)
    with c have "?items = filter ?P (coll st ''menuitem'') @ ?new"
      by simp
    with has_id h show ?thesis
      by (simp del: with_ids.simps)
  qed
  from 1 2 3 show "\<exists>ds. list_menu rt rid (Some st1) =
        (Return (PList (map PDict ds)), Some (pop_fault st1)) \<and>
        public_ids ds \<and>
        (coll st ''restaurant'' = [] \<and> (\<exists>v. r = Return v) \<and> head_fault st1 = None \<and>
         rid = oid_str (next_oid st) \<longrightarrow>
           ds = map (remapped rt) (filter ?P (coll st ''menuitem'')) @
                map (remapped rt)
                  (with_ids (Suc (next_oid st)) (map (menu_doc (PStr rid)) (DEMO_MENU rt))))"
    by (intro exI [of _ ?D] conjI impI)
qed


lemma ids_fresh_empty_store: "ids_fresh empty_store c"
  by (simp add: ids_fresh_def empty_store_simps)

lemma listed_seeded_ids:
  "map (\<lambda>d. map_of d ''id'') (map (remapped exact_runtime) (coll seeded_store ''menuitem'')) =
     [Some (PStr ''1''), Some (PStr ''2''), Some (PStr ''3'')]"
  by code_simp

theorem menu_identity_round_trip_witness:
  "ids_fresh (empty_store :: rat store) ''menuitem'' \<and>
   seed_demo_data exact_runtime (Some empty_store) =
     (Return (PDict [(''ok'', PBool True), (''mode'', PStr ''db'')]), Some seeded_store) \<and>
   coll (empty_store :: rat store) ''restaurant'' = [] \<and>
   head_fault seeded_store = None \<and>
   ''0'' = oid_str (next_oid (empty_store :: rat store)) \<and>
   list_menu exact_runtime ''0'' (Some seeded_store) =
     (Return (PList (map PDict (map (remapped exact_runtime) (coll seeded_store ''menuitem'')))),
      Some seeded_store) \<and>
   public_ids (map (remapped exact_runtime) (coll seeded_store ''menuitem'')) \<and>
   map (\<lambda>d. map_of d ''id'') (map (remapped exact_runtime) (coll seeded_store ''menuitem'')) =
     [Some (PStr ''1''), Some (PStr ''2''), Some (PStr ''3'')]"
proof -
  have h: "ids_fresh (empty_store :: rat store) ''menuitem'' \<and>
    seed_demo_data exact_runtime (Some empty_store) =
      (Return (PDict [(''ok'', PBool True), (''mode'', PStr ''db'')]), Some seeded_store)"
    by (simp add: ids_fresh_empty_store seed_empty_store)
  have g: "coll (empty_store :: rat store) ''restaurant'' = [] \<and>
    (\<exists>v. Return (PDict [(''ok'', PBool True), (''mode'', PStr ''db'')]) = (Return v :: rat response)) \<and>
    head_fault seeded_store = None \<and> ''0'' = oid_str (next_oid (empty_store :: rat store))"
    by (simp add: empty_store_simps seeded_store_simps oid_str_0)
  from menu_identity_round_trip [THEN mp, OF h, of "''0''"]
  obtain ds where d: "list_menu exact_runtime ''0'' (Some seeded_store) =
      (Return (PList (map PDict ds)), Some (pop_fault seeded_store))"
    "public_ids ds"
    "coll (empty_store :: rat store) ''restaurant'' = [] \<and>
     (\<exists>v. Return (PDict [(''ok'', PBool True), (''mode'', PStr ''db'')]) = (Return v :: rat response)) \<and>
     head_fault seeded_store = None \<and> ''0'' = oid_str (next_oid (empty_store :: rat store)) \<longrightarrow>
       ds = map (remapped exact_runtime)
              (filter (\<lambda>d. map_of d ''restaurant_id'' = Some (PStr ''0''))
                (coll (empty_store :: rat store) ''menuitem'')) @
            map (remapped exact_runtime)
              (with_ids (Suc (next_oid (empty_store :: rat store)))
                (map (menu_doc (PStr ''0'')) (DEMO_MENU exact_runtime)))"
    by (elim exE conjE)
  from d(3) [THEN mp, OF g]
  have "ds = map (remapped exact_runtime) (coll seeded_store ''menuitem'')"
    by (simp add: empty_store_simps seeded_store_simps(3) del: with_ids.simps)
  with d(1,2) g h listed_seeded_ids show ?thesis
    by (simp add: seeded_store_simps(2))
qed

section \<open>Orders\<close>

lemma float_limit_gt_1: "1 < float_limit"
proof -
  have "(2::int) ^ 970 * 2 \<le> 2 ^ 970 * 2 ^ 54" by simp
  then have "(2::int) ^ 970 + 2 ^ 970 \<le> 2 ^ 1024"
    by (simp add: power_add [symmetric])
  moreover have "(1::int) < 2 ^ 970" by simp
  ultimately show ?thesis by (simp add: float_limit_def)
qed

lemma float_limit_le: "float_limit \<le> 2 ^ 1024"
  by (simp add: float_limit_def)

lemma line_total_eq:
  "line_total rt i =
     (if float_limit \<le> quantity i
      then Inl (OverflowError ''int too large to convert to float'')
      else Inr (float_mul rt (float_of_int rt (max 1 (quantity i))) (price i)))"
  using float_limit_gt_1 by (auto simp: line_total_def int_times_float_def max_def)

lemma sequence_line_total_Inr:
  "sequence (map (line_total rt) its) = Inr xs \<Longrightarrow>
   list_all (\<lambda>i. quantity i < float_limit) its \<and>
   xs = map (\<lambda>i. float_mul rt (float_of_int rt (max 1 (quantity i))) (price i)) its"
  by (induction its arbitrary: xs) (auto simp: line_total_eq split: if_splits sum.splits)

lemma sequence_line_total_ok:
  "list_all (\<lambda>i. quantity i < float_limit) its \<Longrightarrow>
   sequence (map (line_total rt) its) =
     Inr (map (\<lambda>i. float_mul rt (float_of_int rt (max 1 (quantity i))) (price i)) its)"
  by (induction its) (auto simp: line_total_eq)

lemma sequence_line_total_overflow:
  "\<not> list_all (\<lambda>i. quantity i < float_limit) its \<Longrightarrow>
   sequence (map (line_total rt) its) = Inl (OverflowError ''int too large to convert to float'')"
  by (induction its) (auto simp: line_total_eq split: sum.splits)

lemma order_total_eq:
  "order_total rt its =
     (if list_all (\<lambda>i. quantity i < float_limit) its then Inr (spec_total rt its)
      else Inl (OverflowError ''int too large to convert to float''))"
  by (simp add: order_total_def spec_total_def sequence_line_total_ok
      sequence_line_total_overflow)

lemma create_order_Some:
  "create_order rt p (Some st) =
     (case order_total rt (items p) of
        Inl e \<Rightarrow> (HTTPException 500 (str_exn e), Some st)
      | Inr tot \<Rightarrow>
          (case head_fault st of
             Some e \<Rightarrow> (HTTPException 500 (str_exn e), Some (pop_fault st))
           | None \<Rightarrow>
               (Return (PDict [(''ok'', PBool True), (''order_id'', PStr (oid_str (next_oid st)))]),
                Some (insert_doc ''order'' (order_doc p tot) (pop_fault st)))))"
  by (simp add: create_order_def create_document_eq split: sum.splits option.splits)

lemma spec_total_coerced:
  "spec_total rt (map (\<lambda>i. i\<lparr>quantity := max 1 (quantity i)\<rparr>) its) = spec_total rt its"
  by (simp add: spec_total_def o_def)

text \<open>
  C1. The total of \<^verbatim>\<open>create_order\<close> is \<^verbatim>\<open>round(\<Sigma> max(1, q_i) \<times> p_i, 2)\<close>. Whenever
  the handler stores an order, the stored document's \<^verbatim>\<open>total\<close> is that value; the
  total computation yields it for every payload whose quantities fit a float (no other
  payload gets a total); an item with a quantity of zero or less counts as one item
  and is not the cause of a rejection; and a payload gets the same response as the
  payload with every quantity \<open>q\<close> replaced by \<open>max 1 q\<close>.
\<close>

theorem create_order_total:
  "(create_order rt p (Some st) = (Return v, Some st') \<longrightarrow>
      (\<exists>doc. coll st' ''order'' = coll st ''order'' @ [doc] \<and>
         map_of doc ''total'' = Some (spec_total rt (items p)))) \<and>
   (list_all (\<lambda>i. quantity i < float_limit) (items p) \<longrightarrow>
      order_total rt (items p) = Inr (spec_total rt (items p))) \<and>
   (order_total rt (items p) = Inr tot \<longrightarrow> tot = spec_total rt (items p)) \<and>
   (quantity i \<le> 0 \<longrightarrow>
      line_total rt i = Inr (float_mul rt (float_of_int rt 1) (price i))) \<and>
   fst (create_order rt (p\<lparr>items := map (\<lambda>i. i\<lparr>quantity := max 1 (quantity i)\<rparr>) (items p)\<rparr>) db) =
     fst (create_order rt p db)"
proof (intro conjI impI)
  assume a: "create_order rt p (Some st) = (Return v, Some st')"
  then have ok: "order_total rt (items p) = Inr (spec_total rt (items p))"
    and hf: "head_fault st = None"
    by (auto simp: create_order_Some order_total_eq split: if_splits option.splits)
  with a have "st' = insert_doc ''order'' (order_doc p (spec_total rt (items p))) (pop_fault st)"
    by (simp add: create_order_Some)
  then have "coll st' ''order'' = coll st ''order'' @
      [dict_set (order_doc p (spec_total rt (items p))) ''_id'' (PObjectId (next_oid st))]"
    by simp
  moreover have "map_of (dict_set (order_doc p (spec_total rt (items p))) ''_id''
      (PObjectId (next_oid st))) ''total'' = Some (spec_total rt (items p))"
    by (simp add: order_doc_def)
  ultimately show "\<exists>doc. coll st' ''order'' = coll st ''order'' @ [doc] \<and>
      map_of doc ''total'' = Some (spec_total rt (items p))"
    by blast
next
  assume "list_all (\<lambda>i. quantity i < float_limit) (items p)"
  then show "order_total rt (items p) = Inr (spec_total rt (items p))"
    by (simp add: order_total_eq)
next
  assume "order_total rt (items p) = Inr tot"
  then show "tot = spec_total rt (items p)"
    by (simp add: order_total_eq split: if_splits)
next
  assume "quantity i \<le> 0"
  then show "line_total rt i = Inr (float_mul rt (float_of_int rt 1) (price i))"
    using float_limit_gt_1 by (simp add: line_total_eq max_def)
next
  let ?c = "map (\<lambda>i. i\<lparr>quantity := max 1 (quantity i)\<rparr>) (items p)"
  have "list_all (\<lambda>i. quantity i < float_limit) ?c \<longleftrightarrow>
      list_all (\<lambda>i. quantity i < float_limit) (items p)"
    using float_limit_gt_1 by (auto simp: list_all_iff max_def)
  then have t: "order_total rt ?c = order_total rt (items p)"
    by (simp add: order_total_eq spec_total_coerced)
  show "fst (create_order rt (p\<lparr>items := ?c\<rparr>) db) = fst (create_order rt p db)"
  proof (cases db)
    case None
    with t show ?thesis
      by (simp add: create_order_def split: sum.splits)
  next
    case (Some s)
    with t show ?thesis
      by (simp add: create_order_Some split: sum.splits option.splits)
  qed
qed


lemma empty_store_faults:
  "head_fault (empty_store :: 'f store) = None"
  "pop_fault (empty_store :: 'f store) = empty_store"
  by (simp_all add: head_fault_def pop_fault_def empty_store_def)

lemma example_order_in_range: "list_all (\<lambda>i. quantity i < float_limit) (items example_order)"
  using float_limit_gt_1 by (simp add: example_order_def)

lemma example_order_total: "spec_total exact_runtime (items example_order) = PFloat (1848 / 100)"
  by (simp add: spec_total_def example_order_def exact_runtime_def py_sum_def
      round_half_even_def)

theorem create_order_total_witness:
  "create_order exact_runtime example_order (Some empty_store) =
     (Return (PDict [(''ok'', PBool True), (''order_id'', PStr ''0'')]),
      Some (insert_doc ''order'' (order_doc example_order (PFloat (1848 / 100))) empty_store)) \<and>
   map_of (last (coll (insert_doc ''order'' (order_doc example_order (PFloat (1848 / 100)))
      empty_store) ''order'')) ''total'' = Some (PFloat (1848 / 100)) \<and>
   list_all (\<lambda>i. quantity i < float_limit) (items example_order) \<and>
   order_total exact_runtime (items example_order) = Inr (PFloat (1848 / 100)) \<and>
   quantity (items example_order ! 1) \<le> 0 \<and>
   line_total exact_runtime (items example_order ! 1) = Inr (849 / 100)"
proof -
  note t = create_order_total [of exact_runtime example_order empty_store _ _ _
      "items example_order ! 1", THEN conjunct2]
  from t [THEN conjunct1, THEN mp, OF example_order_in_range]
  have tot: "order_total exact_runtime (items example_order) = Inr (PFloat (1848 / 100))"
    by (simp only: example_order_total)
  then have c: "create_order exact_runtime example_order (Some empty_store) =
     (Return (PDict [(''ok'', PBool True), (''order_id'', PStr ''0'')]),
      Some (insert_doc ''order'' (order_doc example_order (PFloat (1848 / 100))) empty_store))"
    by (simp add: create_order_Some empty_store_faults empty_store_simps oid_str_0)
  from create_order_total [of exact_runtime example_order empty_store _
      "insert_doc ''order'' (order_doc example_order (PFloat (1848 / 100))) empty_store",
      THEN conjunct1, THEN mp, OF c]
  have d: "map_of (last (coll (insert_doc ''order'' (order_doc example_order (PFloat (1848 / 100)))
      empty_store) ''order'')) ''total'' = Some (PFloat (1848 / 100))"
    by (auto simp: example_order_total)
  have q: "quantity (items example_order ! 1) \<le> 0"
    by (simp add: example_order_def)
  from t [THEN conjunct2, THEN conjunct2, THEN conjunct1, THEN mp, OF q]
  have l: "line_total exact_runtime (items example_order ! 1) = Inr (849 / 100)"
    by (simp add: example_order_def exact_runtime_def)
  from c d example_order_in_range tot q l show ?thesis
    by (intro conjI)
qed

text \<open>
  C10. What \<^verbatim>\<open>create_order\<close> stores. When the handler returns in store-backed mode,
  the order collection has grown by exactly one document: the payload's restaurant
  and customer fields unchanged, the notes, the items as the payload has them (each
  with its item id, name, price and original quantity), the total, the status
  \<^verbatim>\<open>pending\<close>, and the identity the store added; there is no other key, so no
  \<^verbatim>\<open>subtotal\<close> and no \<^verbatim>\<open>delivery_fee\<close>.
\<close>

theorem create_order_stored_document:
  "create_order rt p (Some st) = (Return v, Some st') \<longrightarrow>
     coll st' ''order'' = coll st ''order'' @
       [[(''restaurant_id'', PStr (restaurant_id p)),
         (''customer_name'', PStr (customer_name p)),
         (''phone'', PStr (phone p)),
         (''address'', PStr (address p)),
         (''notes'', (case notes p of None \<Rightarrow> PNone | Some n \<Rightarrow> PStr n)),
         (''items'',
          PList (map (\<lambda>i. PDict [(''item_id'', PStr (item_id i)), (''name'', PStr (name i)),
                                   (''price'', PFloat (price i)),
                                   (''quantity'', PInt (quantity i))]) (items p))),
         (''total'', spec_total rt (items p)),
         (''status'', PStr ''pending''),
         (''_id'', PObjectId (next_oid st))]] \<and>
     v = PDict [(''ok'', PBool True), (''order_id'', PStr (oid_str (next_oid st)))]"
proof
  assume a: "create_order rt p (Some st) = (Return v, Some st')"
  then have ok: "order_total rt (items p) = Inr (spec_total rt (items p))"
    and hf: "head_fault st = None"
    by (auto simp: create_order_Some order_total_eq split: if_splits option.splits)
  with a have "st' = insert_doc ''order'' (order_doc p (spec_total rt (items p))) (pop_fault st)"
    and v: "v = PDict [(''ok'', PBool True), (''order_id'', PStr (oid_str (next_oid st)))]"
    by (simp_all add: create_order_Some)
  then have "coll st' ''order'' = coll st ''order'' @
      [dict_set (order_doc p (spec_total rt (items p))) ''_id'' (PObjectId (next_oid st))]"
    by simp
  with v show "coll st' ''order'' = coll st ''order'' @
       [[(''restaurant_id'', PStr (restaurant_id p)),
         (''customer_name'', PStr (customer_name p)),
         (''phone'', PStr (phone p)),
         (''address'', PStr (address p)),
         (''notes'', (case notes p of None \<Rightarrow> PNone | Some n \<Rightarrow> PStr n)),
         (''items'',
          PList (map (\<lambda>i. PDict [(''item_id'', PStr (item_id i)), (''name'', PStr (name i)),
                                   (''price'', PFloat (price i)),
                                   (''quantity'', PInt (quantity i))]) (items p))),
         (''total'', spec_total rt (items p)),
         (''status'', PStr ''pending''),
         (''_id'', PObjectId (next_oid st))]] \<and>
     v = PDict [(''ok'', PBool True), (''order_id'', PStr (oid_str (next_oid st)))]"
    by (simp add: order_doc_def dict_set_def model_dump_def)
qed

lemma example_order_created:
  "create_order exact_runtime example_order (Some empty_store) =
     (Return (PDict [(''ok'', PBool True), (''order_id'', PStr ''0'')]),
      Some (insert_doc ''order'' (order_doc example_order (PFloat (1848 / 100))) empty_store))"
  by (simp add: create_order_Some order_total_eq example_order_in_range example_order_total
      empty_store_faults empty_store_simps oid_str_0)

theorem create_order_stored_document_witness:
  "create_order exact_runtime example_order (Some empty_store) =
     (Return (PDict [(''ok'', PBool True), (''order_id'', PStr ''0'')]),
      Some (insert_doc ''order'' (order_doc example_order (PFloat (1848 / 100))) empty_store)) \<and>
   coll (insert_doc ''order'' (order_doc example_order (PFloat (1848 / 100))) empty_store) ''order'' =
     [[(''restaurant_id'', PStr ''demo-1''),
       (''customer_name'', PStr ''Ada''),
       (''phone'', PStr ''555-0100''),
       (''address'', PStr ''1 Main St''),
       (''notes'', PNone),
       (''items'',
        PList [PDict [(''item_id'', PStr ''m1''), (''name'', PStr ''Classic Burger''),
                      (''price'', PFloat (999 / 100)), (''quantity'', PInt 1)],
               PDict [(''item_id'', PStr ''m2''), (''name'', PStr ''Veggie Bowl''),
                      (''price'', PFloat (849 / 100)), (''quantity'', PInt 0)]]),
       (''total'', PFloat (1848 / 100)),
       (''status'', PStr ''pending''),
       (''_id'', PObjectId 0)]]"
proof -
  from create_order_stored_document [THEN mp, OF example_order_created]
  have "coll (insert_doc ''order'' (order_doc example_order (PFloat (1848 / 100))) empty_store) ''order'' =
     [[(''restaurant_id'', PStr ''demo-1''),
       (''customer_name'', PStr ''Ada''),
       (''phone'', PStr ''555-0100''),
       (''address'', PStr ''1 Main St''),
       (''notes'', PNone),
       (''items'',
        PList [PDict [(''item_id'', PStr ''m1''), (''name'', PStr ''Classic Burger''),
                      (''price'', PFloat (999 / 100)), (''quantity'', PInt 1)],
               PDict [(''item_id'', PStr ''m2''), (''name'', PStr ''Veggie Bowl''),
                      (''price'', PFloat (849 / 100)), (''quantity'', PInt 0)]]),
       (''total'', PFloat (1848 / 100)),
       (''status'', PStr ''pending''),
       (''_id'', PObjectId 0)]]"
    by (simp add: empty_store_simps example_order_total) (simp add: example_order_def)
  with example_order_created show ?thesis by (intro conjI)
qed

lemma huge_order_overflow:
  "\<not> list_all (\<lambda>i. quantity i < float_limit) (items huge_order)"
  using float_limit_le by (simp add: huge_order_def)

text \<open>
  C5, as stated, fails: in demo mode \<^verbatim>\<open>create_order\<close> does not return the placeholder
  for every structurally valid payload. The total is computed before the mode is
  looked at, and a quantity of \<open>2 ^ 1024\<close> makes \<^verbatim>\<open>int * float\<close> raise
  \<^verbatim>\<open>OverflowError\<close>, which the handler turns into status 500.
\<close>

theorem demo_create_order_counterexample:
  "create_order exact_runtime huge_order None =
     (HTTPException 500 ''int too large to convert to float'', None) \<and>
   fst (create_order exact_runtime huge_order None) \<noteq>
     Return (PDict [(''ok'', PBool True), (''order_id'', PStr ''demo-order-1'')])"
  using huge_order_overflow by (simp add: create_order_def order_total_eq)

text \<open>
  C5, amended. In demo mode (\<^verbatim>\<open>db is None\<close>) \<^verbatim>\<open>list_restaurants\<close> returns exactly
  one object, the demo restaurant, whose \<^verbatim>\<open>id\<close> is \<^verbatim>\<open>demo-1\<close>;
  \<^verbatim>\<open>list_menu("demo-1")\<close> returns exactly the three demo items; and \<^verbatim>\<open>create_order\<close>
  returns \<^verbatim>\<open>{ok: true, order_id: "demo-order-1"}\<close>, persisting nothing, for every
  payload whose quantities all fit a float (below \<open>2 ^ 1024 - 2 ^ 970\<close>), whatever
  else the payload holds; for any other payload it fails with status 500 and the
  message of the \<^verbatim>\<open>OverflowError\<close>.
\<close>

theorem demo_mode:
  "list_restaurants rt None = (Return (PList [PDict (DEMO_RESTAURANT rt)]), None) \<and>
   map_of (DEMO_RESTAURANT rt) ''id'' = Some (PStr ''demo-1'') \<and>
   list_menu rt ''demo-1'' None = (Return (PList (map PDict (DEMO_MENU rt))), None) \<and>
   length (DEMO_MENU rt) = 3 \<and>
   (list_all (\<lambda>i. quantity i < float_limit) (items p) \<longrightarrow>
      create_order rt p None =
        (Return (PDict [(''ok'', PBool True), (''order_id'', PStr ''demo-order-1'')]), None)) \<and>
   (\<not> list_all (\<lambda>i. quantity i < float_limit) (items p) \<longrightarrow>
      create_order rt p None =
        (HTTPException 500 ''int too large to convert to float'', None))"
proof (intro conjI impI)
  show "list_restaurants rt None = (Return (PList [PDict (DEMO_RESTAURANT rt)]), None)"
    by (simp add: list_restaurants_def)
  show "map_of (DEMO_RESTAURANT rt) ''id'' = Some (PStr ''demo-1'')"
    by (simp add: DEMO_RESTAURANT_def)
  show "list_menu rt ''demo-1'' None = (Return (PList (map PDict (DEMO_MENU rt))), None)"
    by (simp add: list_menu_def demo_menu_for_demo)
  show "length (DEMO_MENU rt) = 3"
    by (rule length_DEMO_MENU)
next
  assume "list_all (\<lambda>i. quantity i < float_limit) (items p)"
  then show "create_order rt p None =
      (Return (PDict [(''ok'', PBool True), (''order_id'', PStr ''demo-order-1'')]), None)"
    by (simp add: create_order_def order_total_eq)
next
  assume "\<not> list_all (\<lambda>i. quantity i < float_limit) (items p)"
  then show "create_order rt p None =
      (HTTPException 500 ''int too large to convert to float'', None)"
    by (simp add: create_order_def order_total_eq)
qed

theorem demo_mode_witness:
  "list_all (\<lambda>i. quantity i < float_limit) (items example_order) \<and>
   create_order exact_runtime example_order None =
     (Return (PDict [(''ok'', PBool True), (''order_id'', PStr ''demo-order-1'')]), None) \<and>
   \<not> list_all (\<lambda>i. quantity i < float_limit) (items huge_order) \<and>
   create_order exact_runtime huge_order None =
     (HTTPException 500 ''int too large to convert to float'', None)"
proof -
  note a = demo_mode [of exact_runtime example_order, THEN conjunct2, THEN conjunct2,
      THEN conjunct2, THEN conjunct2, THEN conjunct1, THEN mp, OF example_order_in_range]
  note b = demo_mode [of exact_runtime huge_order, THEN conjunct2, THEN conjunct2,
      THEN conjunct2, THEN conjunct2, THEN conjunct2, THEN mp, OF huge_order_overflow]
  from example_order_in_range a huge_order_overflow b show ?thesis
    by (intro conjI)
qed

section \<open>Failures of the write endpoints\<close>

lemma faults_hit: "faults st = Some e # fs \<Longrightarrow> head_fault st = Some e"
  by (simp add: head_fault_def)

lemma faults_step:
  "faults st = replicate (Suc k) None @ Some e # fs \<Longrightarrow>
   head_fault st = None \<and> faults (pop_fault st) = replicate k None @ Some e # fs"
  by (simp add: head_fault_def)

lemma seed_menu_fault:
  "faults st = replicate k None @ Some e # fs \<Longrightarrow> k < length itms \<Longrightarrow>
   fst (seed_menu rid itms st) = Inl e"
proof (induction itms arbitrary: k st)
  case Nil
  then show ?case by simp
next
  case (Cons itm itms)
  show ?case
  proof (cases k)
    case 0
    with Cons.prems have "head_fault st = Some e"
      by (simp add: faults_hit)
    then show ?thesis by (simp add: create_document_eq)
  next
    case (Suc j)
    with Cons.prems faults_step [of st j e fs]
    have h: "head_fault st = None" "faults (pop_fault st) = replicate j None @ Some e # fs"
      by simp_all
    let ?st1 = "insert_doc ''menuitem'' (menu_doc rid itm) (pop_fault st)"
    from h(2) have "faults ?st1 = replicate j None @ Some e # fs" by simp
    moreover from Suc Cons.prems have "j < length itms" by simp
    ultimately have "fst (seed_menu rid itms ?st1) = Inl e"
      by (rule Cons.IH)
    with h(1) show ?thesis by (simp add: create_document_eq)
  qed
qed

lemma seed_insert_fault:
  assumes "faults st = replicate k None @ Some e # fs" and "k < 4"
  shows "fst (seed_insert rt st) = Inl e"
proof -
  obtain rdoc where rdoc: "restaurant_doc rt = Inr rdoc"
    using restaurant_doc_eq by blast
  show ?thesis
  proof (cases k)
    case 0
    with assms have "head_fault st = Some e" by (simp add: faults_hit)
    with rdoc show ?thesis by (simp add: seed_insert_def create_document_eq)
  next
    case (Suc j)
    with assms faults_step [of st j e fs]
    have h: "head_fault st = None" "faults (pop_fault st) = replicate j None @ Some e # fs"
      by simp_all
    let ?st1 = "insert_doc ''restaurant'' rdoc (pop_fault st)"
    from h(2) have "faults ?st1 = replicate j None @ Some e # fs" by simp
    moreover from Suc assms have "j < length (DEMO_MENU rt)" by (simp add: length_DEMO_MENU)
    ultimately have "fst (seed_menu (PStr (oid_str (next_oid st))) (DEMO_MENU rt) ?st1) = Inl e"
      by (rule seed_menu_fault)
    with h(1) rdoc show ?thesis by (simp add: seed_insert_def create_document_eq)
  qed
qed

lemma seed_try_fault:
  assumes "faults st = replicate k None @ Some e # fs"
    and "k < (if coll st ''restaurant'' = [] then 6 else 2)"
  shows "fst (seed_try rt st) = Inl e"
proof (cases k)
  case 0
  with assms have "head_fault st = Some e" by (simp add: faults_hit)
  then show ?thesis by (simp add: seed_try_def db_truth_eq)
next
  case (Suc j)
  with assms faults_step [of st j e fs]
  have h: "head_fault st = None" "faults (pop_fault st) = replicate j None @ Some e # fs"
    by simp_all
  show ?thesis
  proof (cases j)
    case 0
    with h(2) have "head_fault (pop_fault st) = Some e" by (simp add: faults_hit)
    with h(1) show ?thesis by (simp add: seed_try_def db_truth_eq count_documents_eq)
  next
    case (Suc i)
    with h(2) faults_step [of "pop_fault st" i e fs]
    have g: "head_fault (pop_fault st) = None"
      "faults (pop_fault (pop_fault st)) = replicate i None @ Some e # fs"
      by simp_all
    from assms(2) \<open>k = Suc j\<close> Suc have c: "coll st ''restaurant'' = []" and i: "i < 4"
      by (simp_all split: if_splits)
    from seed_insert_fault [OF g(2) i, of rt]
    obtain s' where "seed_insert rt (pop_fault (pop_fault st)) = (Inl e, s')"
      by (cases "seed_insert rt (pop_fault (pop_fault st))") simp
    with h(1) g(1) c show ?thesis
      by (simp add: seed_try_def db_truth_eq count_documents_eq)
  qed
qed


text \<open>
  C4. A failure of a write endpoint is reported, never acknowledged. When the store
  raises \<open>e\<close> at any of the accesses \<^verbatim>\<open>seed_demo_data\<close> makes (the truth test of
  the handle, the count, and, when there is no restaurant yet, the four inserts), the
  handler raises \<^verbatim>\<open>HTTPException\<close> with status 500 and detail \<^verbatim>\<open>str(e)\<close>. When the
  total computation of \<^verbatim>\<open>create_order\<close> raises \<open>e\<close>, in either mode, or the store
  raises \<open>e\<close> at the insert, the handler raises status 500 with detail \<^verbatim>\<open>str(e)\<close>,
  and the failed insert stores nothing.
\<close>

theorem write_failures_are_500:
  "(faults st = replicate k None @ Some e # fs \<and>
    k < (if coll st ''restaurant'' = [] then 6 else 2) \<longrightarrow>
      fst (seed_demo_data rt (Some st)) = HTTPException 500 (str_exn e)) \<and>
   (order_total rt (items p) = Inl e \<longrightarrow>
      create_order rt p db = (HTTPException 500 (str_exn e), db)) \<and>
   (order_total rt (items p) = Inr tot \<and> head_fault st = Some e \<longrightarrow>
      create_order rt p (Some st) = (HTTPException 500 (str_exn e), Some (pop_fault st)) \<and>
      collections (pop_fault st) = collections st)"
proof (intro conjI impI)
  assume "faults st = replicate k None @ Some e # fs \<and>
    k < (if coll st ''restaurant'' = [] then 6 else 2)"
  then have "fst (seed_try rt st) = Inl e"
    using seed_try_fault by blast
  then obtain s' where "seed_try rt st = (Inl e, s')"
    by (cases "seed_try rt st") simp
  then show "fst (seed_demo_data rt (Some st)) = HTTPException 500 (str_exn e)"
    by (simp add: seed_demo_data_def)
next
  assume "order_total rt (items p) = Inl e"
  then show "create_order rt p db = (HTTPException 500 (str_exn e), db)"
    by (simp add: create_order_def)
next
  assume a: "order_total rt (items p) = Inr tot \<and> head_fault st = Some e"
  then show "create_order rt p (Some st) = (HTTPException 500 (str_exn e), Some (pop_fault st))"
    by (simp add: create_order_Some)
  show "collections (pop_fault st) = collections st"
    by simp
qed

lemma failing_store_faults:
  "faults failing_store = replicate 0 None @ Some (Exception ''connection refused'') # []"
  by (simp add: failing_store_def)

lemma failing_store_restaurant: "coll failing_store ''restaurant'' \<noteq> []"
  by (simp add: failing_store_def seeded_store_def coll_def restaurant_doc_eq)

theorem write_failures_are_500_witness:
  "faults failing_store = replicate 0 None @ Some (Exception ''connection refused'') # [] \<and>
   (0::nat) < (if coll failing_store ''restaurant'' = [] then 6 else 2) \<and>
   fst (seed_demo_data exact_runtime (Some failing_store)) =
     HTTPException 500 ''connection refused'' \<and>
   order_total exact_runtime (items huge_order) =
     Inl (OverflowError ''int too large to convert to float'') \<and>
   create_order exact_runtime huge_order (Some seeded_store) =
     (HTTPException 500 ''int too large to convert to float'', Some seeded_store) \<and>
   order_total exact_runtime (items example_order) = Inr (PFloat (1848 / 100)) \<and>
   head_fault failing_store = Some (Exception ''connection refused'') \<and>
   create_order exact_runtime example_order (Some failing_store) =
     (HTTPException 500 ''connection refused'', Some seeded_store)"
proof -
  have h1: "faults failing_store = replicate 0 None @ Some (Exception ''connection refused'') # [] \<and>
    (0::nat) < (if coll failing_store ''restaurant'' = [] then 6 else 2)"
    using failing_store_faults failing_store_restaurant by simp
  have h2: "order_total exact_runtime (items huge_order) =
      Inl (OverflowError ''int too large to convert to float'')"
    using huge_order_overflow by (simp add: order_total_eq)
  have h3: "order_total exact_runtime (items example_order) = Inr (PFloat (1848 / 100)) \<and>
    head_fault failing_store = Some (Exception ''connection refused'')"
    by (simp add: order_total_eq example_order_in_range example_order_total failing_store_simps)
  note a = write_failures_are_500 [of failing_store 0 "Exception ''connection refused''" "[]"
      exact_runtime, THEN conjunct1, THEN mp, OF h1]
  note b = write_failures_are_500 [of _ _ "OverflowError ''int too large to convert to float''" _
      exact_runtime huge_order "Some seeded_store", THEN conjunct2, THEN conjunct1, THEN mp, OF h2]
  note c = write_failures_are_500 [of failing_store _ "Exception ''connection refused''" _
      exact_runtime example_order _ "PFloat (1848 / 100)", THEN conjunct2, THEN conjunct2,
      THEN mp, OF h3, THEN conjunct1]
  from h1 h2 h3 a b c show ?thesis
    by (simp add: failing_store_simps)
qed

section \<open>Diagnostics\<close>

lemma test_database_fields:
  "\<exists>r db'. test_database env db = (Return (PDict r), db') \<and>
     map_of r ''database_url'' = Some (set_marker (getenv env ''DATABASE_URL'')) \<and>
     map_of r ''database_name'' = Some (set_marker (getenv env ''DATABASE_NAME''))"
proof -
  let ?E = "case db of
      Some st \<Rightarrow>
        (case probe_store env initial_report st of
           (Inl e, r, st') \<Rightarrow>
             (dict_set r ''database'' (PStr (cross_mark @ '' Error'')), Some st')
         | (Inr _, r, st') \<Rightarrow> (r, Some st'))
    | None \<Rightarrow>
        (dict_set initial_report ''database''
           (PStr (info_sign @ '' Using demo mode (no database)'')),
         None)"
  obtain response db' where e: "?E = (response, db')"
    by (cases ?E)
  let ?r = "dict_set (dict_set response ''database_url'' (set_marker (getenv env ''DATABASE_URL'')))
      ''database_name'' (set_marker (getenv env ''DATABASE_NAME''))"
  from e have "test_database env db = (Return (PDict ?r), db')"
    unfolding test_database_def by (simp only: Let_def prod.case)
  moreover have "map_of ?r ''database_url'' = Some (set_marker (getenv env ''DATABASE_URL''))"
    and "map_of ?r ''database_name'' = Some (set_marker (getenv env ''DATABASE_NAME''))"
    by simp_all
  ultimately show ?thesis by blast
qed

lemma set_marker_eq_iff:
  "(set_marker v :: 'f pyval) = set_marker w \<longleftrightarrow>
     ((v \<noteq> None \<and> v \<noteq> Some []) \<longleftrightarrow> (w \<noteq> None \<and> w \<noteq> Some []))"
  by (simp add: set_marker_def check_mark_def cross_mark_def)

lemma set_marker_env:
  "(set_marker (getenv env k) :: 'f pyval) =
     (if env_nonempty env k then PStr (check_mark @ '' Set'') else PStr (cross_mark @ '' Not Set''))"
  by (auto simp: set_marker_def env_nonempty_def split: option.splits)

lemma report_field_test_database:
  "report_field (fst (test_database env db)) ''database_url'' =
     Some (set_marker (getenv env ''DATABASE_URL''))"
  "report_field (fst (test_database env db)) ''database_name'' =
     Some (set_marker (getenv env ''DATABASE_NAME''))"
  using test_database_fields [of env db] by (auto simp: report_field_def)


lemma env_nonempty_examples:
  "env_nonempty env_a ''DATABASE_URL''" "env_nonempty env_a ''DATABASE_NAME''"
  "env_nonempty env_b ''DATABASE_URL''" "env_nonempty env_b ''DATABASE_NAME''"
  "\<not> env_nonempty env_empty_url ''DATABASE_URL''"
  by (simp_all add: env_nonempty_def getenv_def env_a_def env_b_def env_empty_url_def)

text \<open>The report on a store whose first probe raises, and on a store that works.\<close>

lemma test_database_failing_store:
  "report_field (fst (test_database env_a (Some failing_store))) ''database'' =
     Some (PStr (cross_mark @ '' Error''))"
  by code_simp

lemma test_database_seeded_store:
  "report_field (fst (test_database env_a (Some seeded_store))) ''database'' =
     Some (PStr (check_mark @ '' Connected & Working'')) \<and>
   report_field (fst (test_database env_a (Some seeded_store))) ''collections'' =
     Some (PList [PStr ''restaurant'', PStr ''menuitem''])"
  by code_simp

text \<open>
  C8, as stated, fails: the two fields do not depend on the presence of the variables
  alone. With \<^verbatim>\<open>DATABASE_URL\<close> present in both runs, set to the empty string in
  one and to a connection string in the other, the field \<^verbatim>\<open>database_url\<close> differs:
  an empty value is false in \<^verbatim>\<open>if os.getenv(...)\<close>.
\<close>

theorem diagnostics_presence_counterexample:
  "getenv env_a ''DATABASE_URL'' \<noteq> None \<and>
   getenv env_empty_url ''DATABASE_URL'' \<noteq> None \<and>
   getenv env_a ''DATABASE_NAME'' = getenv env_empty_url ''DATABASE_NAME'' \<and>
   report_field (fst (test_database env_a (None :: rat store option))) ''database_url'' =
     Some (PStr (check_mark @ '' Set'')) \<and>
   report_field (fst (test_database env_empty_url (None :: rat store option))) ''database_url'' =
     Some (PStr (cross_mark @ '' Not Set'')) \<and>
   report_field (fst (test_database env_a (None :: rat store option))) ''database_url'' \<noteq>
     report_field (fst (test_database env_empty_url (None :: rat store option))) ''database_url''"
  by (simp add: report_field_test_database set_marker_env env_nonempty_examples)
    (simp add: getenv_def env_a_def env_empty_url_def check_mark_def cross_mark_def)

text \<open>
  C8, amended. \<^verbatim>\<open>test_database\<close> never fails: for every environment, in demo mode
  and for every store state, it returns a report. The fields \<^verbatim>\<open>database_url\<close> and
  \<^verbatim>\<open>database_name\<close> of the report are a fixed marker that says only whether the
  variable is set to a non-empty value: two runs in which each of the two variables is
  non-empty in both or is absent or empty in both have identical
  \<^verbatim>\<open>database_url\<close> and \<^verbatim>\<open>database_name\<close> fields, whatever the values and the
  stores.
\<close>

theorem diagnostics_never_fails:
  "(\<exists>r db'. test_database env db = (Return (PDict r), db') \<and>
      map_of r ''database_url'' =
        Some (if env_nonempty env ''DATABASE_URL'' then PStr (check_mark @ '' Set'')
              else PStr (cross_mark @ '' Not Set'')) \<and>
      map_of r ''database_name'' =
        Some (if env_nonempty env ''DATABASE_NAME'' then PStr (check_mark @ '' Set'')
              else PStr (cross_mark @ '' Not Set''))) \<and>
   (env_nonempty env1 ''DATABASE_URL'' = env_nonempty env2 ''DATABASE_URL'' \<and>
    env_nonempty env1 ''DATABASE_NAME'' = env_nonempty env2 ''DATABASE_NAME'' \<longrightarrow>
      report_field (fst (test_database env1 db1)) ''database_url'' =
        report_field (fst (test_database env2 db2)) ''database_url'' \<and>
      report_field (fst (test_database env1 db1)) ''database_name'' =
        report_field (fst (test_database env2 db2)) ''database_name'')"
proof (intro conjI impI)
  from test_database_fields [of env db]
  show "\<exists>r db'. test_database env db = (Return (PDict r), db') \<and>
      map_of r ''database_url'' =
        Some (if env_nonempty env ''DATABASE_URL'' then PStr (check_mark @ '' Set'')
              else PStr (cross_mark @ '' Not Set'')) \<and>
      map_of r ''database_name'' =
        Some (if env_nonempty env ''DATABASE_NAME'' then PStr (check_mark @ '' Set'')
              else PStr (cross_mark @ '' Not Set''))"
    by (simp only: set_marker_env)
next
  assume a: "env_nonempty env1 ''DATABASE_URL'' = env_nonempty env2 ''DATABASE_URL'' \<and>
    env_nonempty env1 ''DATABASE_NAME'' = env_nonempty env2 ''DATABASE_NAME''"
  then show "report_field (fst (test_database env1 db1)) ''database_url'' =
      report_field (fst (test_database env2 db2)) ''database_url''"
    and "report_field (fst (test_database env1 db1)) ''database_name'' =
      report_field (fst (test_database env2 db2)) ''database_name''"
    by (simp_all only: report_field_test_database set_marker_env)
qed

theorem diagnostics_never_fails_witness:
  "env_nonempty env_a ''DATABASE_URL'' = env_nonempty env_b ''DATABASE_URL'' \<and>
   env_nonempty env_a ''DATABASE_NAME'' = env_nonempty env_b ''DATABASE_NAME'' \<and>
   report_field (fst (test_database env_a (None :: rat store option))) ''database_url'' =
     report_field (fst (test_database env_b (Some failing_store))) ''database_url'' \<and>
   report_field (fst (test_database env_a (None :: rat store option))) ''database_name'' =
     report_field (fst (test_database env_b (Some failing_store))) ''database_name''"
proof -
  have h: "env_nonempty env_a ''DATABASE_URL'' = env_nonempty env_b ''DATABASE_URL'' \<and>
    env_nonempty env_a ''DATABASE_NAME'' = env_nonempty env_b ''DATABASE_NAME''"
    by (simp add: env_nonempty_examples)
  from diagnostics_never_fails [of _ "None :: rat store option" env_a env_b None "Some failing_store",
      THEN conjunct2, THEN mp, OF h] h
  show ?thesis by (intro conjI) simp_all
qed

end
